theory Spec2Isabelle
  imports Complex_Main
begin

section \<open>JavaScript values used by the handlers\<close>

text \<open>
  The handlers read their limits from the \<open>settings\<close> table as text and convert them
  with \<open>parseInt\<close>. The result \<open>None\<close> stands for \<open>NaN\<close>: every comparison with
  it is false. Values beyond \<open>2^53\<close> are not rounded here.
\<close>

definition isWhiteSpace :: "char \<Rightarrow> bool" where
  "isWhiteSpace c = ((of_char c :: nat) \<in> set [32, 9, 10, 11, 12, 13])"

definition digitValue :: "char \<Rightarrow> nat option" where
  "digitValue c =
     (let n = (of_char c :: nat) in
      if 48 \<le> n \<and> n \<le> 57 then Some (n - 48)
      else if 97 \<le> n \<and> n \<le> 122 then Some (n - 87)
      else if 65 \<le> n \<and> n \<le> 90 then Some (n - 55)
      else None)"

definition isRadixDigit :: "nat \<Rightarrow> char \<Rightarrow> bool" where
  "isRadixDigit R c = (case digitValue c of None \<Rightarrow> False | Some d \<Rightarrow> d < R)"

definition digitsValue :: "nat \<Rightarrow> string \<Rightarrow> int" where
  "digitsValue R ds =
     foldl (\<lambda>acc c. case digitValue c of None \<Rightarrow> acc | Some d \<Rightarrow> acc * int R + int d) 0 ds"

definition parseInt :: "string \<Rightarrow> int option" where
  "parseInt input =
     (let s = dropWhile isWhiteSpace input;
          sign = (if take 1 s = ''-'' then - 1 else 1);
          s1 = (if take 1 s = ''+'' \<or> take 1 s = ''-'' then drop 1 s else s);
          hex = (take 2 s1 = ''0x'' \<or> take 2 s1 = ''0X'');
          R = (if hex then 16 else 10);
          s2 = (if hex then drop 2 s1 else s1);
          z = takeWhile (isRadixDigit R) s2
      in if z = [] then None else Some (sign * digitsValue R z))"

text \<open>
  A \<open>Date\<close> is a number of milliseconds since the epoch, or invalid (\<open>None\<close>).
  The calendar fields of a day number follow the proleptic Gregorian calendar; the
  host's local time is a fixed offset \<open>tz\<close> from UTC, in minutes east of Greenwich
  (daylight saving is not modelled: what is stated for an offset \<open>tz\<close> is about instants
  at which the host's zone has that offset).
\<close>

type_synonym jsdate = "int option"

type_synonym ymd = "int \<times> int \<times> int"

definition msPerMinute :: int where
  "msPerMinute = 60000"

definition msPerDay :: int where
  "msPerDay = 86400000"

definition days_from_civil :: "int \<Rightarrow> int \<Rightarrow> int \<Rightarrow> int" where
  "days_from_civil y m d =
     (let y1 = (if m \<le> 2 then y - 1 else y);
          era = y1 div 400;
          yoe = y1 - era * 400;
          doy = (153 * (if m > 2 then m - 3 else m + 9) + 2) div 5 + d - 1;
          doe = yoe * 365 + yoe div 4 - yoe div 100 + doy
      in era * 146097 + doe - 719468)"

definition civil_from_days :: "int \<Rightarrow> ymd" where
  "civil_from_days z =
     (let z1 = z + 719468;
          era = z1 div 146097;
          doe = z1 - era * 146097;
          yoe = (doe - doe div 1460 + doe div 36524 - doe div 146096) div 365;
          doy = doe - (365 * yoe + yoe div 4 - yoe div 100);
          mp = (5 * doy + 2) div 153;
          d = doy - (153 * mp + 2) div 5 + 1;
          m = (if mp < 10 then mp + 3 else mp - 9)
      in (yoe + era * 400 + (if m \<le> 2 then 1 else 0), m, d))"

definition utcDate :: "int \<Rightarrow> ymd" where
  \<comment> \<open>\<open>d.toISOString().split('T')[0]\<close>, and SQLite's \<open>DATE(text)\<close> on an ISO string.\<close>
  "utcDate ms = civil_from_days (ms div msPerDay)"

definition localDate :: "int \<Rightarrow> int \<Rightarrow> ymd" where
  "localDate tz ms = civil_from_days ((ms + tz * msPerMinute) div msPerDay)"

definition getFullYear :: "int \<Rightarrow> jsdate \<Rightarrow> int option" where
  "getFullYear tz d = map_option (\<lambda>ms. fst (localDate tz ms)) d"

definition getMonth :: "int \<Rightarrow> jsdate \<Rightarrow> int option" where
  "getMonth tz d = map_option (\<lambda>ms. fst (snd (localDate tz ms)) - 1) d"

definition strictEq :: "int option \<Rightarrow> int option \<Rightarrow> bool" where
  \<comment> \<open>\<open>===\<close> on numbers: \<open>NaN\<close> equals nothing, itself included.\<close>
  "strictEq a b = (case a of None \<Rightarrow> False | Some x \<Rightarrow> b = Some x)"

definition parseDateOnly :: "ymd \<Rightarrow> jsdate" where
  \<comment> \<open>\<open>new Date('YYYY-MM-DD')\<close>: midnight UTC of that day.\<close>
  "parseDateOnly c =
     (case c of (y, m, d) \<Rightarrow>
        if 1 \<le> m \<and> m \<le> 12 \<and> 1 \<le> d \<and> d \<le> 31
        then Some (days_from_civil y m d * msPerDay) else None)"

definition newDateLocal :: "int \<Rightarrow> int \<Rightarrow> int \<Rightarrow> int \<Rightarrow> int" where
  \<comment> \<open>\<open>new Date(year, monthIndex, day)\<close>: local midnight; a month index outside 0..11
      carries into the year, and a year in 0..99 means 1900 + year.\<close>
  "newDateLocal tz y mi d =
     (let y1 = (if 0 \<le> y \<and> y \<le> 99 then 1900 + y else y);
          ym = y1 * 12 + mi
      in (days_from_civil (ym div 12) (ym mod 12 + 1) 1 + (d - 1)) * msPerDay
         - tz * msPerMinute)"

text \<open>
  The Gregorian calendar as a table, for comparison with the day arithmetic above: leap
  years, the length of each month, and the day number of the first day of a month, where
  the months are counted from year 0 (\<open>k\<close> is month \<open>k mod 12 + 1\<close> of year
  \<open>k div 12\<close>).
\<close>

definition isLeapYear :: "int \<Rightarrow> bool" where
  "isLeapYear y = (y mod 4 = 0 \<and> (y mod 100 \<noteq> 0 \<or> y mod 400 = 0))"

definition daysInMonth :: "int \<Rightarrow> int \<Rightarrow> int" where
  "daysInMonth y m =
     (if m = 2 then (if isLeapYear y then 29 else 28)
      else if m = 4 \<or> m = 6 \<or> m = 9 \<or> m = 11 then 30 else 31)"

definition firstOfMonth :: "int \<Rightarrow> int" where
  \<comment> \<open>the day number of the first day of month \<open>k = 12 * year + (month - 1)\<close>\<close>
  "firstOfMonth k = days_from_civil (k div 12) (k mod 12 + 1) 1"

definition yearDays :: "int \<Rightarrow> int" where
  "yearDays y = 365 * y + y div 4 - y div 100 + y div 400"

definition addMinutes :: "int \<Rightarrow> int \<Rightarrow> int" where
  "addMinutes t n = t + n * msPerMinute"

definition ymd_le :: "ymd \<Rightarrow> ymd \<Rightarrow> bool" where
  \<comment> \<open>Order of two \<open>'YYYY-MM-DD'\<close> strings, as SQLite's \<open>BETWEEN\<close> compares them.\<close>
  "ymd_le a b =
     (case a of (y1, m1, d1) \<Rightarrow> case b of (y2, m2, d2) \<Rightarrow>
        y1 < y2 \<or> (y1 = y2 \<and> (m1 < m2 \<or> (m1 = m2 \<and> d1 \<le> d2))))"

section \<open>The store\<close>

text \<open>
  One record per table of \<open>createTables\<close>, a row list per table. A \<open>DATETIME\<close>
  column that the handlers fill with \<open>toISOString()\<close> holds the instant in
  milliseconds; a \<open>DATE\<close> column holds the calendar day.
\<close>

datatype booking_status = Pending | Confirmed | Completed | Cancelled | Rescheduled

record booking =
  id' :: nat
  user_id :: nat
  lesson_date :: int
  duration :: int
  price :: rat
  status :: booking_status
  notes' :: "string option"
  reschedule_count :: nat
  original_date :: "int option"
  cancellation_reason :: "string option"
  cancelled_at :: "int option"
  google_calendar_event_id :: "string option"

record payment =
  booking_id :: nat
  amount :: rat
  payment_method :: string
  payment_status :: string
  payment_reference :: string

record sync_entry =
  action :: string
  log_booking_id :: nat
  google_event_id :: "string option"
  log_status :: string
  error_message :: "string option"

datatype makeup_status = MPending | MScheduled | MCompleted | MExpired

record makeup_lesson =
  makeup_id :: nat
  makeup_user_id :: nat
  original_booking_id :: nat
  reason :: string
  makeup_status :: makeup_status
  makeup_date :: "string option"

record blackout_date =
  start_date :: ymd
  end_date :: ymd
  blackout_reason :: string
  is_active :: bool

record recurring_booking =
  rb_id :: nat
  rb_user_id :: nat
  rb_duration :: int
  rb_price :: rat
  day_of_week :: int
  time_of_day :: string
  frequency :: string
  rb_start_date :: string
  rb_end_date :: string
  lesson_type :: string

record billing_cycle =
  bc_user_id :: nat
  recurring_booking_id :: nat
  cycle_month :: int
  cycle_year :: int
  total_amount :: rat
  lessons_count :: int
  billing_date :: ymd
  due_date :: ymd

record store =
  bookings :: "booking list"
  payments :: "payment list"
  calendar_sync_log :: "sync_entry list"
  makeup_lessons :: "makeup_lesson list"
  blackout_dates :: "blackout_date list"
  recurring_bookings :: "recurring_booking list"
  billing_cycles :: "billing_cycle list"
  settings :: "(string \<times> string) list"
  calendar_sync_enabled :: bool
  bookings_seq :: nat
  makeup_seq :: nat
  recurring_seq :: nat

definition settingOr :: "store \<Rightarrow> string \<Rightarrow> string \<Rightarrow> string" where
  \<comment> \<open>\<open>row?.value || dflt\<close> for the row \<open>SELECT value FROM settings WHERE key = ?\<close>.\<close>
  "settingOr s k dflt =
     (case map_of (settings s) k of
        None \<Rightarrow> dflt
      | Some v \<Rightarrow> if v = [] then dflt else v)"

section \<open>Requests and responses\<close>

text \<open>
  A date in a request body is a JSON string: absent (or empty, which is falsy too),
  present but not parseable by \<open>new Date\<close>, or present with the instant it denotes.
\<close>

datatype date_field = Missing | Unparsable | Timestamp int

fun new_Date :: "date_field \<Rightarrow> jsdate" where
  "new_Date Missing = None"
| "new_Date Unparsable = None"
| "new_Date (Timestamp t) = Some t"

fun truthy :: "date_field \<Rightarrow> bool" where
  "truthy Missing = False"
| "truthy Unparsable = True"
| "truthy (Timestamp t) = True"

record request =
  user :: "nat option"
  params_id :: nat
  body_lesson_date :: date_field
  body_new_date :: date_field
  body_duration :: "int option"
  body_notes :: "string option"

datatype response = Response (code: nat) (message: string)

datatype 'a ext = Returns 'a | Throws string

record policyChecks =
  cancellationAllowed :: bool
  rescheduleAllowed :: bool
  makeupAllowed :: bool

section \<open>The policy middleware (\<open>middleware/policies.ts\<close>)\<close>

text \<open>
  A middleware either answers the request itself or calls \<open>next()\<close>. The clock
  (\<open>new Date()\<close>, \<open>CURRENT_TIMESTAMP\<close>) is the argument \<open>now\<close>, in milliseconds.
  Response messages that interpolate a number or a date are kept without it.
\<close>

definition hoursUntilLesson :: "int \<Rightarrow> int \<Rightarrow> rat" where
  \<comment> \<open>\<open>(bookingDate.getTime() - now.getTime()) / (1000 * 60 * 60)\<close>\<close>
  "hoursUntilLesson bookingDate now = of_int (bookingDate - now) / (1000 * 60 * 60)"

definition geNumber :: "rat \<Rightarrow> int option \<Rightarrow> bool" where
  \<comment> \<open>\<open>a >= b\<close> where \<open>b\<close> may be \<open>NaN\<close>\<close>
  "geNumber a b = (case b of None \<Rightarrow> False | Some n \<Rightarrow> of_int n \<le> a)"

definition checkCancellationPolicy :: "store \<Rightarrow> int \<Rightarrow> request \<Rightarrow> response + policyChecks" where
  "checkCancellationPolicy s now req =
     (case user req of
        None \<Rightarrow> Inl (Response 401 ''User not authenticated'')
      | Some uid \<Rightarrow>
          (case find (\<lambda>b. id' b = params_id req \<and> user_id b = uid) (bookings s) of
             None \<Rightarrow> Inl (Response 404 ''Booking not found'')
           | Some b \<Rightarrow>
               let policyHours = parseInt (settingOr s ''cancellation_policy_hours'' ''24'');
                   allowed = geNumber (hoursUntilLesson (lesson_date b) now) policyHours
               in Inr \<lparr>cancellationAllowed = allowed, rescheduleAllowed = allowed,
                       makeupAllowed = True\<rparr>))"

definition lateCancellationFee :: "nat \<Rightarrow> booking \<Rightarrow> payment" where
  "lateCancellationFee bookingId b =
     \<lparr>booking_id = bookingId, amount = price b, payment_method = ''automatic_charge'',
      payment_status = ''pending'', payment_reference = ''late_cancellation_fee''\<rparr>"

definition enforceCancellationCharging ::
  "store \<Rightarrow> int \<Rightarrow> request \<Rightarrow> policyChecks \<Rightarrow> response option \<times> store" where
  \<comment> \<open>\<open>None\<close> is \<open>next()\<close>. A missing row makes \<open>booking.price\<close> throw, which the
      handler's \<open>catch\<close> answers with 500 before anything is written.\<close>
  "enforceCancellationCharging s now req checks =
     (if \<not> cancellationAllowed checks then
        (case find (\<lambda>b. id' b = params_id req) (bookings s) of
           None \<Rightarrow> (Some (Response 500 ''Failed to process cancellation''), s)
         | Some b \<Rightarrow>
             let s1 = s\<lparr>payments := payments s @ [lateCancellationFee (params_id req) b]\<rparr>;
                 s2 = s1\<lparr>bookings :=
                        map (\<lambda>x. if id' x = params_id req
                                  then x\<lparr>status := Cancelled,
                                         cancellation_reason :=
                                           Some ''Late cancellation - automatic charge applied'',
                                         cancelled_at := Some now\<rparr>
                                  else x) (bookings s1)\<rparr>
             in (Some (Response 200
                   ''Booking cancelled with automatic charge due to 24-hour policy violation''),
                 s2))
      else (None, s))"

definition sameMonth :: "int \<Rightarrow> jsdate \<Rightarrow> jsdate \<Rightarrow> bool" where
  "sameMonth tz originalDate newDate =
     (strictEq (getMonth tz originalDate) (getMonth tz newDate) \<and>
      strictEq (getFullYear tz originalDate) (getFullYear tz newDate))"

definition strftimeMatches :: "int \<Rightarrow> int \<Rightarrow> int \<Rightarrow> bool" where
  \<comment> \<open>\<open>strftime('%m', lesson_date) = ? AND strftime('%Y', lesson_date) = ?\<close> against
      \<open>currentMonth.toString().padStart(2, '0')\<close> and \<open>currentYear.toString()\<close>:
      SQLite prints the UTC year with four digits, JavaScript prints it unpadded.\<close>
  "strftimeMatches ld currentMonth currentYear =
     (case utcDate ld of (y, m, d) \<Rightarrow>
        m = currentMonth \<and> y = currentYear \<and> 1000 \<le> y \<and> y \<le> 9999)"

definition rescheduleCount :: "store \<Rightarrow> nat \<Rightarrow> int \<Rightarrow> int \<Rightarrow> nat" where
  "rescheduleCount s uid currentMonth currentYear =
     length (filter (\<lambda>b. user_id b = uid \<and> reschedule_count b > 0 \<and>
                          strftimeMatches (lesson_date b) currentMonth currentYear)
               (bookings s))"

definition countGe :: "nat \<Rightarrow> int option \<Rightarrow> bool" where
  \<comment> \<open>\<open>count >= limit\<close> where \<open>limit\<close> may be \<open>NaN\<close>\<close>
  "countGe c limit = (case limit of None \<Rightarrow> False | Some n \<Rightarrow> n \<le> int c)"

definition checkReschedulePolicy :: "int \<Rightarrow> store \<Rightarrow> request \<Rightarrow> response option" where
  "checkReschedulePolicy tz s req =
     (case user req of
        None \<Rightarrow> Some (Response 401 ''User not authenticated'')
      | Some uid \<Rightarrow>
          (case find (\<lambda>b. id' b = params_id req \<and> user_id b = uid) (bookings s) of
             None \<Rightarrow> Some (Response 404 ''Booking not found'')
           | Some b \<Rightarrow>
               let originalDate = Some (lesson_date b);
                   newDate = new_Date (body_new_date req)
               in if \<not> sameMonth tz originalDate newDate
                  then Some (Response 400
                         ''Lessons can only be rescheduled within the same month'')
                  else
                    let maxReschedules =
                          parseInt (settingOr s ''max_reschedules_per_month'' ''2'');
                        currentMonth = fst (snd (localDate tz (lesson_date b)));
                        currentYear = fst (localDate tz (lesson_date b))
                    in if countGe (rescheduleCount s uid currentMonth currentYear)
                            maxReschedules
                       then Some (Response 400 ''Maximum reschedules per month allowed'')
                       else None))"

text \<open>
  The count the reschedule quota is about: the client's bookings that have already been
  rescheduled and lie in the given calendar month, the month of a lesson being read as the
  same-month test reads it, on the host's clock.
\<close>

definition rescheduledInMonth :: "int \<Rightarrow> store \<Rightarrow> nat \<Rightarrow> int \<Rightarrow> int \<Rightarrow> nat" where
  "rescheduledInMonth tz s uid m y =
     length (filter (\<lambda>b. user_id b = uid \<and> reschedule_count b > 0 \<and>
                          fst (snd (localDate tz (lesson_date b))) = m \<and>
                          fst (localDate tz (lesson_date b)) = y)
               (bookings s))"

definition pendingCount :: "store \<Rightarrow> nat \<Rightarrow> nat" where
  "pendingCount s uid =
     length (filter (\<lambda>m. makeup_user_id m = uid \<and> makeup_status m = MPending)
               (makeup_lessons s))"

definition checkMakeupPolicy :: "store \<Rightarrow> nat option \<Rightarrow> response option" where
  "checkMakeupPolicy s u =
     (case u of
        None \<Rightarrow> Some (Response 401 ''User not authenticated'')
      | Some uid \<Rightarrow>
          let maxPending = parseInt (settingOr s ''max_pending_makeups'' ''2'')
          in if countGe (pendingCount s uid) maxPending
             then Some (Response 400 ''Maximum pending make-up lessons allowed'')
             else None)"

definition checkBlackoutDates :: "store \<Rightarrow> request \<Rightarrow> response option" where
  \<comment> \<open>\<open>new Date(x).toISOString()\<close> throws on an invalid date; the \<open>catch\<close> answers 500.\<close>
  "checkBlackoutDates s req =
     (let dateToCheck = (if truthy (body_new_date req) then body_new_date req
                         else body_lesson_date req)
      in if \<not> truthy dateToCheck then None
         else
           (case new_Date dateToCheck of
              None \<Rightarrow> Some (Response 500 ''Failed to check blackout dates'')
            | Some t \<Rightarrow>
                (case find (\<lambda>bl. is_active bl \<and> ymd_le (start_date bl) (utcDate t) \<and>
                                  ymd_le (utcDate t) (end_date bl)) (blackout_dates s) of
                   Some bl \<Rightarrow> Some (Response 400 (''Cannot book during '' @ blackout_reason bl))
                 | None \<Rightarrow> None)))"

section \<open>The booking routes (\<open>routes/bookings.ts\<close>)\<close>

text \<open>
  The routes run behind \<open>authenticateToken\<close>, so \<open>req.user\<close> is set; reading
  \<open>req.user!.id\<close> without a user throws, and the route's \<open>catch\<close> answers 500. Each call
  of the calendar service is an argument of the handler: what the call returned, or what
  it threw. It is only consulted where the source makes the call.
\<close>

definition nonTerminal :: "booking \<Rightarrow> bool" where
  \<comment> \<open>\<open>status NOT IN ('cancelled', 'completed')\<close>\<close>
  "nonTerminal b = (status b \<noteq> Cancelled \<and> status b \<noteq> Completed)"

definition priceFor :: "int \<Rightarrow> rat" where
  \<comment> \<open>\<open>duration === 45 ? 70.00 : 85.00\<close>\<close>
  "priceFor dur = (if dur = 45 then 70 else 85)"

definition insertBooking :: "store \<Rightarrow> nat \<Rightarrow> int \<Rightarrow> int \<Rightarrow> rat \<Rightarrow> string option \<Rightarrow> store" where
  \<comment> \<open>\<open>INSERT INTO bookings (...) VALUES (?, ?, ?, ?, ?, 'pending')\<close>; the new row's id
      is \<open>result.lastID\<close>.\<close>
  "insertBooking s uid t dur pr nts =
     s\<lparr>bookings := bookings s @
          [\<lparr>id' = Suc (bookings_seq s), user_id = uid, lesson_date = t, duration = dur,
            price = pr, status = Pending, notes' = nts, reschedule_count = 0,
            original_date = None, cancellation_reason = None, cancelled_at = None,
            google_calendar_event_id = None\<rparr>],
       bookings_seq := Suc (bookings_seq s)\<rparr>"

definition logSync :: "store \<Rightarrow> string \<Rightarrow> nat \<Rightarrow> string option \<Rightarrow> string \<Rightarrow> string option \<Rightarrow> store" where
  "logSync s act bid gid st err =
     s\<lparr>calendar_sync_log := calendar_sync_log s @
          [\<lparr>action = act, log_booking_id = bid, google_event_id = gid, log_status = st,
            error_message = err\<rparr>]\<rparr>"

definition pushCreated :: "store \<Rightarrow> nat \<Rightarrow> string option ext \<Rightarrow> string option \<times> store" where
  \<comment> \<open>The \<open>try\<close>/\<open>catch\<close> around \<open>createBookingEvent\<close>; the result is \<open>googleEventId\<close>.\<close>
  "pushCreated s lastID created =
     (if calendar_sync_enabled s then
        (case created of
           Returns (Some gid) \<Rightarrow>
             if gid \<noteq> [] then
               (Some gid,
                logSync (s\<lparr>bookings :=
                           map (\<lambda>x. if id' x = lastID
                                     then x\<lparr>google_calendar_event_id := Some gid\<rparr> else x)
                             (bookings s)\<rparr>)
                  ''create'' lastID (Some gid) ''success'' None)
             else
               (None, logSync s ''create'' lastID None ''error''
                        (Some ''Failed to create Google Calendar event''))
         | Returns None \<Rightarrow>
             (None, logSync s ''create'' lastID None ''error''
                      (Some ''Failed to create Google Calendar event''))
         | Throws errorMessage \<Rightarrow>
             (None, logSync s ''create'' lastID None ''error'' (Some errorMessage)))
      else (None, s))"

definition createdMessage :: "string option \<Rightarrow> string" where
  "createdMessage googleEventId =
     ''Booking created successfully'' @
     (case googleEventId of None \<Rightarrow> [] | Some g \<Rightarrow> '' and added to calendar'')"

text \<open>
  The create handler suspends twice on the store: at \<open>await db.get\<close> for the conflict
  query and at \<open>await db.run\<close> for the insert. \<open>createBookingCheck\<close> is the code up
  to the answer of the query, \<open>createBookingWrite\<close> the code from there on; what the
  handler holds across the suspension is the parsed date, the duration and the row the
  query returned.
\<close>

type_synonym held = "int \<times> int \<times> booking option"

definition createBookingCheck :: "store \<Rightarrow> int \<Rightarrow> request \<Rightarrow> response + held" where
  "createBookingCheck s now req =
     (case body_duration req of
        None \<Rightarrow> Inl (Response 400 ''Lesson date and duration are required'')
      | Some dur \<Rightarrow>
          if \<not> truthy (body_lesson_date req) \<or> dur = 0
          then Inl (Response 400 ''Lesson date and duration are required'')
          else
            (case new_Date (body_lesson_date req) of
               None \<Rightarrow> Inl (Response 500 ''Failed to create booking'')
             | Some lessonDateTime \<Rightarrow>
                 if lessonDateTime \<le> now
                 then Inl (Response 400
                        ''Lesson must be scheduled for a future date and time'')
                 else Inr (lessonDateTime, dur,
                        find (\<lambda>b. lesson_date b = lessonDateTime \<and> nonTerminal b)
                          (bookings s))))"

definition createBookingWrite ::
  "store \<Rightarrow> string option ext \<Rightarrow> request \<Rightarrow> held \<Rightarrow> response \<times> store" where
  "createBookingWrite s created req h =
     (case h of (lessonDateTime, dur, conflictingBooking) \<Rightarrow>
        (case conflictingBooking of
           Some c \<Rightarrow> (Response 400 ''This time slot is already booked'', s)
         | None \<Rightarrow>
             (case user req of
                None \<Rightarrow> (Response 500 ''Failed to create booking'', s)
              | Some uid \<Rightarrow>
                  let s1 = insertBooking s uid lessonDateTime dur (priceFor dur)
                             (body_notes req);
                      (googleEventId, s2) = pushCreated s1 (bookings_seq s1) created
                  in (Response 201 (createdMessage googleEventId), s2))))"

definition createBookingHandler ::
  "store \<Rightarrow> int \<Rightarrow> string option ext \<Rightarrow> request \<Rightarrow> response \<times> store" where
  "createBookingHandler s now created req =
     (case createBookingCheck s now req of
        Inl r \<Rightarrow> (r, s)
      | Inr h \<Rightarrow> createBookingWrite s created req h)"

definition hasEventId :: "booking \<Rightarrow> bool" where
  \<comment> \<open>truthiness of \<open>booking.google_calendar_event_id\<close>\<close>
  "hasEventId b =
     (case google_calendar_event_id b of None \<Rightarrow> False | Some g \<Rightarrow> g \<noteq> [])"

definition pushChanged ::
  "store \<Rightarrow> string \<Rightarrow> string \<Rightarrow> booking \<Rightarrow> bool ext \<Rightarrow> bool \<times> store" where
  \<comment> \<open>The \<open>try\<close>/\<open>catch\<close> around \<open>updateBookingEvent\<close> and \<open>deleteBookingEvent\<close>; the
      result is \<open>calendarUpdated\<close> (\<open>calendarDeleted\<close>).\<close>
  "pushChanged s act failure b pushed =
     (if calendar_sync_enabled s \<and> hasEventId b then
        (case pushed of
           Returns ok \<Rightarrow>
             (ok, logSync s act (id' b) (google_calendar_event_id b)
                    (if ok then ''success'' else ''error'')
                    (if ok then None else Some failure))
         | Throws errorMessage \<Rightarrow>
             (False, logSync s act (id' b) (google_calendar_event_id b) ''error''
                       (Some errorMessage)))
      else (False, s))"

text \<open>
  The calendar service catches its own errors: \<open>createBookingEvent\<close> then returns
  \<open>null\<close>, \<open>updateBookingEvent\<close> and \<open>deleteBookingEvent\<close> return \<open>false\<close>. A push
  has failed when it returned such a value or when something inside the handler's \<open>try\<close>
  threw.
\<close>

definition createFailed :: "string option ext \<Rightarrow> bool" where
  \<comment> \<open>the \<open>else\<close> of \<open>if (googleEventId)\<close>, and the \<open>catch\<close>\<close>
  "createFailed created =
     (case created of Returns (Some gid) \<Rightarrow> gid = [] | Returns None \<Rightarrow> True | Throws e \<Rightarrow> True)"

definition pushFailed :: "bool ext \<Rightarrow> bool" where
  \<comment> \<open>\<open>calendarUpdated\<close> (\<open>calendarDeleted\<close>) false, and the \<open>catch\<close>\<close>
  "pushFailed pushed = (case pushed of Returns ok \<Rightarrow> \<not> ok | Throws e \<Rightarrow> True)"

definition loggedError :: "string \<Rightarrow> 'a ext \<Rightarrow> string" where
  \<comment> \<open>the \<open>error_message\<close> of the sync-log row: the handler's own text, or the
      message of what was thrown\<close>
  "loggedError failure outcome = (case outcome of Returns x \<Rightarrow> failure | Throws e \<Rightarrow> e)"

definition rescheduleRow :: "int \<Rightarrow> string option \<Rightarrow> int \<Rightarrow> booking \<Rightarrow> booking" where
  \<comment> \<open>\<open>SET lesson_date = ?, notes = ?, reschedule_count = reschedule_count + 1,
      original_date = COALESCE(original_date, ?)\<close>\<close>
  "rescheduleRow t nts old x =
     x\<lparr>lesson_date := t, notes' := nts, reschedule_count := Suc (reschedule_count x),
       original_date := (case original_date x of None \<Rightarrow> Some old | Some od \<Rightarrow> Some od)\<rparr>"

definition changedMessage :: "string \<Rightarrow> string \<Rightarrow> bool \<Rightarrow> string" where
  "changedMessage base suffix done = base @ (if done then suffix else [])"

definition rescheduleHandler ::
  "int \<Rightarrow> store \<Rightarrow> bool ext \<Rightarrow> request \<Rightarrow> response \<times> store" where
  "rescheduleHandler tz s updated req =
     (if \<not> truthy (body_lesson_date req)
      then (Response 400 ''New lesson date is required'', s)
      else
        (case user req of
           None \<Rightarrow> (Response 500 ''Failed to update booking'', s)
         | Some uid \<Rightarrow>
             (case find (\<lambda>b. id' b = params_id req \<and> user_id b = uid) (bookings s) of
                None \<Rightarrow> (Response 404 ''Booking not found'', s)
              | Some booking \<Rightarrow>
                  let newLessonDate = new_Date (body_lesson_date req);
                      currentLessonDate = Some (lesson_date booking)
                  in if \<not> strictEq (getMonth tz newLessonDate) (getMonth tz currentLessonDate)
                        \<or> \<not> strictEq (getFullYear tz newLessonDate)
                                        (getFullYear tz currentLessonDate)
                     then (Response 400
                             ''Lessons can only be rescheduled within the same month'', s)
                     else
                       (case newLessonDate of
                          None \<Rightarrow> (Response 500 ''Failed to update booking'', s)
                        | Some t \<Rightarrow>
                            (case find (\<lambda>b. lesson_date b = t \<and> nonTerminal b \<and>
                                              id' b \<noteq> params_id req) (bookings s) of
                               Some conflictingBooking \<Rightarrow>
                                 (Response 400 ''This time slot is already booked'', s)
                             | None \<Rightarrow>
                                 let s1 = s\<lparr>bookings :=
                                            map (\<lambda>x. if id' x = params_id req
                                                      then rescheduleRow t (body_notes req)
                                                             (lesson_date booking) x
                                                      else x) (bookings s)\<rparr>;
                                     (calendarUpdated, s2) =
                                       pushChanged s1 ''update''
                                         ''Failed to update Google Calendar event'' booking
                                         updated
                                 in (Response 200
                                       (changedMessage ''Booking rescheduled successfully''
                                          '' and calendar updated'' calendarUpdated),
                                     s2))))))"

definition cancelHandler ::
  "store \<Rightarrow> int \<Rightarrow> bool ext \<Rightarrow> request \<Rightarrow> response \<times> store" where
  "cancelHandler s now deleted req =
     (case user req of
        None \<Rightarrow> (Response 500 ''Failed to cancel booking'', s)
      | Some uid \<Rightarrow>
          (case find (\<lambda>b. id' b = params_id req \<and> user_id b = uid) (bookings s) of
             None \<Rightarrow> (Response 404 ''Booking not found'', s)
           | Some booking \<Rightarrow>
               let s1 = s\<lparr>bookings :=
                          map (\<lambda>x. if id' x = params_id req
                                    then x\<lparr>status := Cancelled, cancelled_at := Some now\<rparr>
                                    else x) (bookings s)\<rparr>;
                   (calendarDeleted, s2) =
                     pushChanged s1 ''delete'' ''Failed to delete Google Calendar event''
                       booking deleted
               in (Response 200
                     (changedMessage ''Booking cancelled successfully''
                        '' and removed from calendar'' calendarDeleted),
                   s2)))"

text \<open>The three routes with their middleware chains.\<close>

definition createBooking ::
  "store \<Rightarrow> int \<Rightarrow> string option ext \<Rightarrow> request \<Rightarrow> response \<times> store" where
  \<comment> \<open>\<open>router.post('/', ..., checkBlackoutDates, handler)\<close>\<close>
  "createBooking s now created req =
     (case checkBlackoutDates s req of
        Some r \<Rightarrow> (r, s)
      | None \<Rightarrow> createBookingHandler s now created req)"

definition rescheduleBooking ::
  "int \<Rightarrow> store \<Rightarrow> bool ext \<Rightarrow> request \<Rightarrow> response \<times> store" where
  \<comment> \<open>\<open>router.put('/:id', ..., checkReschedulePolicy, checkBlackoutDates, handler)\<close>\<close>
  "rescheduleBooking tz s updated req =
     (case checkReschedulePolicy tz s req of
        Some r \<Rightarrow> (r, s)
      | None \<Rightarrow>
          (case checkBlackoutDates s req of
             Some r \<Rightarrow> (r, s)
           | None \<Rightarrow> rescheduleHandler tz s updated req))"

definition cancelBooking ::
  "store \<Rightarrow> int \<Rightarrow> bool ext \<Rightarrow> request \<Rightarrow> response \<times> store" where
  \<comment> \<open>\<open>router.delete('/:id', ..., checkCancellationPolicy, enforceCancellationCharging,
      handler)\<close>\<close>
  "cancelBooking s now deleted req =
     (case checkCancellationPolicy s now req of
        Inl r \<Rightarrow> (r, s)
      | Inr checks \<Rightarrow>
          (case enforceCancellationCharging s now req checks of
             (Some r, s1) \<Rightarrow> (r, s1)
           | (None, s1) \<Rightarrow> cancelHandler s1 now deleted req))"

section \<open>Recurring bookings and their billing cycles\<close>

text \<open>
  \<open>router.post('/')\<close> of the recurring-booking routes and its helper
  \<open>generateBillingCycles\<close>. Dates arrive as \<open>'YYYY-MM-DD'\<close> text, which
  \<open>new Date\<close> reads as midnight UTC; other date formats are not modelled and count as
  invalid. \<open>parseFloat\<close> is modelled for plain decimals (no exponent).

  Every \<open>db.run\<close> of the request may be rejected by the database. \<open>faults k\<close> says
  whether the \<open>k\<close>-th write of the request is: write 0 is the insert of the commitment,
  write \<open>k > 0\<close> the insert of the \<open>k\<close>-th billing cycle. A rejected write throws; the
  helper has no handler of its own, so the route's \<open>catch\<close> answers 500.
\<close>

fun showNat :: "nat \<Rightarrow> string" where
  "showNat n =
     (if n < 10 then [char_of (48 + n)] else showNat (n div 10) @ [char_of (48 + n mod 10)])"

definition showInt :: "int \<Rightarrow> string" where
  "showInt i = (if i < 0 then ''-'' @ showNat (nat (- i)) else showNat (nat i))"

definition isDecimalDigit :: "char \<Rightarrow> bool" where
  "isDecimalDigit c = isRadixDigit 10 c"

definition parseFloat :: "string \<Rightarrow> rat option" where
  "parseFloat input =
     (let s = dropWhile isWhiteSpace input;
          sign = (if take 1 s = ''-'' then - 1 else 1);
          s1 = (if take 1 s = ''+'' \<or> take 1 s = ''-'' then drop 1 s else s);
          whole = takeWhile isDecimalDigit s1;
          rest = dropWhile isDecimalDigit s1;
          frac = (if take 1 rest = ''.'' then takeWhile isDecimalDigit (drop 1 rest) else [])
      in if whole = [] \<and> frac = [] then None
         else Some (sign * (of_int (digitsValue 10 whole) +
                            of_int (digitsValue 10 frac) / 10 ^ length frac)))"

definition allDigits :: "string \<Rightarrow> int option" where
  "allDigits ds = (if ds \<noteq> [] \<and> list_all isDecimalDigit ds then Some (digitsValue 10 ds) else None)"

definition parseIsoDate :: "string \<Rightarrow> jsdate" where
  \<comment> \<open>\<open>new Date(str)\<close> for \<open>str\<close> of the form \<open>YYYY-MM-DD\<close>\<close>
  "parseIsoDate str =
     (if length str = 10 \<and> take 1 (drop 4 str) = ''-'' \<and> take 1 (drop 7 str) = ''-'' then
        (case (allDigits (take 4 str), allDigits (take 2 (drop 5 str)), allDigits (drop 8 str)) of
           (Some y, Some m, Some d) \<Rightarrow> parseDateOnly (y, m, d)
         | _ \<Rightarrow> None)
      else None)"

definition insertCycle ::
  "store \<Rightarrow> nat \<Rightarrow> nat \<Rightarrow> int \<Rightarrow> int \<Rightarrow> rat \<Rightarrow> int \<Rightarrow> ymd \<Rightarrow> ymd \<Rightarrow> store" where
  "insertCycle s userId recurringBookingId cycleMonth cycleYear monthlyAmount lessonsPerMonth
     billingDate dueDate =
     s\<lparr>billing_cycles := billing_cycles s @
          [\<lparr>bc_user_id = userId, recurring_booking_id = recurringBookingId,
            cycle_month = cycleMonth, cycle_year = cycleYear, total_amount = monthlyAmount,
            lessons_count = lessonsPerMonth, billing_date = billingDate,
            due_date = dueDate\<rparr>]\<rparr>"

partial_function (option) billingLoop ::
  "int \<Rightarrow> (nat \<Rightarrow> bool) \<Rightarrow> nat \<Rightarrow> nat \<Rightarrow> rat \<Rightarrow> int \<Rightarrow> int \<Rightarrow> int \<Rightarrow> nat \<Rightarrow> store
   \<Rightarrow> (bool \<times> store) option" where
  \<comment> \<open>\<open>while (currentDate <= end) { ... }\<close>; the result says whether the loop ran to its
      end (\<open>True\<close>) or a write threw (\<open>False\<close>), with the store as it then is.\<close>
  "billingLoop tz faults userId recurringBookingId monthlyAmount lessonsPerMonth end
     currentDate k s =
     (if currentDate \<le> end then
        (let cycleMonth = fst (snd (localDate tz currentDate));
             cycleYear = fst (localDate tz currentDate);
             billingDate = newDateLocal tz cycleYear (cycleMonth - 1) 1;
             dueDate = newDateLocal tz cycleYear (cycleMonth - 1) 15
         in if faults k then Some (False, s)
            else billingLoop tz faults userId recurringBookingId monthlyAmount lessonsPerMonth
                   end
                   (newDateLocal tz (fst (localDate tz currentDate))
                      (fst (snd (localDate tz currentDate)) - 1 + 1) 1)
                   (Suc k)
                   (insertCycle s userId recurringBookingId cycleMonth cycleYear monthlyAmount
                      lessonsPerMonth (utcDate billingDate) (utcDate dueDate)))
      else Some (True, s))"

declare billingLoop.simps [code]

definition lessonsPerMonth :: "string \<Rightarrow> int" where
  \<comment> \<open>\<open>frequency === 'weekly' ? 4 : 2\<close>\<close>
  "lessonsPerMonth freq = (if freq = ''weekly'' then 4 else 2)"

definition generateBillingCycles ::
  "int \<Rightarrow> (nat \<Rightarrow> bool) \<Rightarrow> store \<Rightarrow> nat \<Rightarrow> nat \<Rightarrow> string \<Rightarrow> string \<Rightarrow> rat \<Rightarrow> string
   \<Rightarrow> (bool \<times> store) option" where
  \<comment> \<open>An invalid start or end date makes \<open>currentDate <= end\<close> false at once.\<close>
  "generateBillingCycles tz faults s recurringBookingId userId startDate endDate lessonPrice
     freq =
     (case (parseIsoDate startDate, parseIsoDate endDate) of
        (Some start, Some end) \<Rightarrow>
          billingLoop tz faults userId recurringBookingId
            (lessonPrice * of_int (lessonsPerMonth freq)) (lessonsPerMonth freq) end
            (newDateLocal tz (fst (localDate tz start)) (fst (snd (localDate tz start)) - 1) 1)
            1 s
      | _ \<Rightarrow> Some (True, s))"

text \<open>
  What the academic-year billing is meant to write: one cycle for every calendar month from
  the month of the start date to the month of the end date, billed on the 1st and due on the
  15th of that month.
\<close>

definition validDate :: "ymd \<Rightarrow> bool" where
  "validDate c = (case c of (y, m, d) \<Rightarrow> 1 \<le> m \<and> m \<le> 12 \<and> 1 \<le> d \<and> d \<le> daysInMonth y m)"

definition monthIndex :: "int \<Rightarrow> int \<Rightarrow> int" where
  "monthIndex y m = 12 * y + (m - 1)"

definition monthlyCycle :: "nat \<Rightarrow> nat \<Rightarrow> rat \<Rightarrow> int \<Rightarrow> int \<Rightarrow> billing_cycle" where
  "monthlyCycle userId recurringBookingId monthlyAmount lessonsCount k =
     \<lparr>bc_user_id = userId, recurring_booking_id = recurringBookingId,
      cycle_month = k mod 12 + 1, cycle_year = k div 12, total_amount = monthlyAmount,
      lessons_count = lessonsCount, billing_date = (k div 12, k mod 12 + 1, 1),
      due_date = (k div 12, k mod 12 + 1, 15)\<rparr>"

record recurring_request =
  rr_user :: "nat option"
  rr_duration :: int
  rr_day_of_week :: int
  rr_time :: string
  rr_frequency :: string
  rr_start_date :: string
  rr_lesson_type :: "string option"

definition insertRecurring :: "store \<Rightarrow> nat \<Rightarrow> recurring_request \<Rightarrow> rat \<Rightarrow> string \<Rightarrow> store" where
  "insertRecurring s uid req pr endDate =
     s\<lparr>recurring_bookings := recurring_bookings s @
          [\<lparr>rb_id = Suc (recurring_seq s), rb_user_id = uid, rb_duration = rr_duration req,
            rb_price = pr, day_of_week = rr_day_of_week req, time_of_day = rr_time req,
            frequency = rr_frequency req, rb_start_date = rr_start_date req,
            rb_end_date = endDate,
            lesson_type = (case rr_lesson_type req of None \<Rightarrow> ''regular'' | Some t \<Rightarrow> t)\<rparr>],
       recurring_seq := Suc (recurring_seq s)\<rparr>"

definition createRecurringBooking ::
  "int \<Rightarrow> (nat \<Rightarrow> bool) \<Rightarrow> store \<Rightarrow> recurring_request \<Rightarrow> (response \<times> store) option" where
  \<comment> \<open>A price that does not parse is \<open>NaN\<close>, which SQLite stores as \<open>NULL\<close>: the
      \<open>NOT NULL\<close> column \<open>price\<close> rejects the commitment.\<close>
  "createRecurringBooking tz faults s req =
     (case rr_user req of
        None \<Rightarrow> Some (Response 401 ''User not authenticated'', s)
      | Some uid \<Rightarrow>
          (case map_of (settings s) (''lesson_'' @ showInt (rr_duration req) @ ''_price'') of
             None \<Rightarrow> Some (Response 400 ''Invalid lesson duration'', s)
           | Some priceResult \<Rightarrow>
               (case parseFloat priceResult of
                  None \<Rightarrow> Some (Response 500 ''Failed to create recurring booking'', s)
                | Some pr \<Rightarrow>
                    if faults 0
                    then Some (Response 500 ''Failed to create recurring booking'', s)
                    else
                      (let endDate = settingOr s ''academic_year_end'' ''2026-06-30'';
                           s1 = insertRecurring s uid req pr endDate
                       in case generateBillingCycles tz faults s1 (recurring_seq s1) uid
                                 (rr_start_date req) endDate pr (rr_frequency req) of
                            None \<Rightarrow> None
                          | Some (True, s2) \<Rightarrow>
                              Some (Response 200 ''Recurring booking created successfully'', s2)
                          | Some (False, s2) \<Rightarrow>
                              Some (Response 500 ''Failed to create recurring booking'',
                                    s2)))))"

definition extendsBy :: "nat \<Rightarrow> nat \<Rightarrow> rat \<Rightarrow> int \<Rightarrow> store \<Rightarrow> store \<Rightarrow> bool" where
  \<comment> \<open>\<open>s'\<close> is \<open>s\<close> with billing cycles of one commitment appended, each for the same
      amount and number of lessons\<close>
  "extendsBy u rb A L s s' =
     (recurring_bookings s' = recurring_bookings s \<and>
      (\<exists>cs. billing_cycles s' = billing_cycles s @ cs \<and>
            list_all (\<lambda>c. lessons_count c = L \<and> total_amount c = A \<and>
                           bc_user_id c = u \<and> recurring_booking_id c = rb) cs))"

section \<open>Available slots (\<open>getAvailableSlots\<close> of the calendar service)\<close>

text \<open>
  The busy intervals are what \<open>getBusyTimes\<close> returned for the day, a list of pairs of
  instants. \<open>`${date}T${businessStart}:00`\<close> has no zone suffix, so \<open>new Date\<close> reads
  it in the host's zone. If either bound of the day is invalid the loop adds no slot and
  the function returns the empty list. \<open>getBusyTimes\<close> may refresh the calendar's access
  token and store it in the \<open>users\<close> table; that table is not part of the store here, and
  nothing is stated about what the resolver writes.
\<close>

record availabilitySlot =
  slot_start :: int
  slot_end :: int
  available :: bool

definition parseClock :: "string \<Rightarrow> int option" where
  \<comment> \<open>minutes since midnight of an \<open>'HH:MM'\<close> text\<close>
  "parseClock str =
     (if length str = 5 \<and> take 1 (drop 2 str) = '':'' then
        (case (allDigits (take 2 str), allDigits (drop 3 str)) of
           (Some h, Some m) \<Rightarrow>
             if (h \<le> 23 \<and> m \<le> 59) \<or> (h = 24 \<and> m = 0) then Some (h * 60 + m) else None
         | _ \<Rightarrow> None)
      else None)"

definition parseLocalDateTime :: "int \<Rightarrow> string \<Rightarrow> string \<Rightarrow> jsdate" where
  \<comment> \<open>\<open>new Date(`${date}T${clock}:00`)\<close>\<close>
  "parseLocalDateTime tz date clk =
     (case (parseIsoDate date, parseClock clk) of
        (Some midnightUtc, Some minutes) \<Rightarrow>
          Some (midnightUtc + minutes * msPerMinute - tz * msPerMinute)
      | _ \<Rightarrow> None)"

function candidateSlots :: "int \<Rightarrow> int \<Rightarrow> int \<Rightarrow> availabilitySlot list" where
  \<comment> \<open>\<open>while (currentTime < dayEnd) { ...; currentTime = addMinutes(currentTime, 30) }\<close>\<close>
  "candidateSlots currentTime dayEnd dur =
     (if currentTime < dayEnd then
        (let slotEnd = addMinutes currentTime dur
         in (if slotEnd \<le> dayEnd
             then [\<lparr>slot_start = currentTime, slot_end = slotEnd, available = True\<rparr>]
             else []) @
            candidateSlots (addMinutes currentTime 30) dayEnd dur)
      else [])"
  by pat_completeness auto
termination
  by (relation "measure (\<lambda>(currentTime, dayEnd, dur). nat (dayEnd - currentTime))")
     (auto simp: addMinutes_def msPerMinute_def)

declare candidateSlots.simps [simp del]

definition overlaps :: "int \<Rightarrow> int \<Rightarrow> int \<Rightarrow> int \<Rightarrow> bool" where
  \<comment> \<open>\<open>slotStart < otherEnd && slotEnd > otherStart\<close>\<close>
  "overlaps slotStart slotEnd otherStart otherEnd =
     (slotStart < otherEnd \<and> slotEnd > otherStart)"

definition markBusy :: "(int \<times> int) list \<Rightarrow> availabilitySlot \<Rightarrow> availabilitySlot" where
  "markBusy busyTimes slot =
     (if list_ex (\<lambda>busy. overlaps (slot_start slot) (slot_end slot) (fst busy) (snd busy))
           busyTimes
      then slot\<lparr>available := False\<rparr> else slot)"

definition existingBookings :: "store \<Rightarrow> string \<Rightarrow> booking list" where
  \<comment> \<open>\<open>WHERE DATE(lesson_date) = ? AND status IN ('confirmed', 'pending')\<close>: the stored
      text is an ISO instant in UTC, so \<open>DATE\<close> is its UTC day.\<close>
  "existingBookings s date =
     filter (\<lambda>b. (case (allDigits (take 4 date), allDigits (take 2 (drop 5 date)),
                         allDigits (drop 8 date)) of
                    (Some y, Some m, Some d) \<Rightarrow> utcDate (lesson_date b) = (y, m, d)
                  | _ \<Rightarrow> False) \<and>
                 (status b = Confirmed \<or> status b = Pending))
       (bookings s)"

definition markBooked :: "booking list \<Rightarrow> availabilitySlot \<Rightarrow> availabilitySlot" where
  "markBooked existing slot =
     (if \<not> available slot then slot
      else if list_ex (\<lambda>b. overlaps (slot_start slot) (slot_end slot) (lesson_date b)
                            (addMinutes (lesson_date b) (duration b))) existing
      then slot\<lparr>available := False\<rparr> else slot)"

definition getAvailableSlots ::
  "int \<Rightarrow> store \<Rightarrow> (int \<times> int) list \<Rightarrow> string \<Rightarrow> int \<Rightarrow> availabilitySlot list" where
  "getAvailableSlots tz s busyTimes date dur =
     (let businessStart = settingOr s ''business_hours_start'' ''09:00'';
          businessEnd = settingOr s ''business_hours_end'' ''18:00''
      in case (parseLocalDateTime tz date businessStart,
               parseLocalDateTime tz date businessEnd) of
           (Some dayStart, Some dayEnd) \<Rightarrow>
             filter available
               (map (markBooked (existingBookings s date))
                  (map (markBusy busyTimes) (candidateSlots dayStart dayEnd dur)))
         | _ \<Rightarrow> [])"

section \<open>Requests in flight\<close>

text \<open>
  Node runs one handler at a time, but a handler gives way at every \<open>await\<close>, and any
  other request may run until its own next \<open>await\<close>. A request to \<open>POST /bookings\<close>
  that has passed its middleware is a task: arrived, awaiting the answer of its conflict
  query, or replied. A schedule names the task that runs next.
\<close>

datatype task = Arrived request | Awaiting request held | Replied response

fun stepTask :: "int \<Rightarrow> task \<Rightarrow> store \<Rightarrow> task \<times> store" where
  "stepTask now (Arrived req) s =
     (case createBookingCheck s now req of
        Inl r \<Rightarrow> (Replied r, s)
      | Inr h \<Rightarrow> (Awaiting req h, s))"
| "stepTask now (Awaiting req h) s =
     (case createBookingWrite s (Returns None) req h of (r, s1) \<Rightarrow> (Replied r, s1))"
| "stepTask now (Replied r) s = (Replied r, s)"

fun runSchedule :: "int \<Rightarrow> nat list \<Rightarrow> task list \<times> store \<Rightarrow> task list \<times> store" where
  "runSchedule now [] c = c"
| "runSchedule now (i # sched) (ts, s) =
     (if i < length ts
      then (case stepTask now (ts ! i) s of
              (t1, s1) \<Rightarrow> runSchedule now sched (ts[i := t1], s1))
      else runSchedule now sched (ts, s))"

definition doubleBooked :: "store \<Rightarrow> bool" where
  \<comment> \<open>two non-terminal bookings with the same start\<close>
  "doubleBooked s = (\<not> distinct (map lesson_date (filter nonTerminal (bookings s))))"

section \<open>Make-up requests (\<open>POST /\<close>, \<open>PUT /:id/schedule\<close>, \<open>PUT /:id/complete\<close>)\<close>

text \<open>
  The request route runs behind \<open>checkMakeupPolicy\<close> and counts the pending requests
  once more itself. The column \<open>reason\<close> is \<open>NOT NULL\<close>: an absent reason makes the
  insert fail, which the route's \<open>catch\<close> answers with 500.
\<close>

definition eligibleForMakeup :: "nat \<Rightarrow> nat \<Rightarrow> booking \<Rightarrow> bool" where
  \<comment> \<open>\<open>WHERE id = ? AND user_id = ? AND status IN ('confirmed', 'cancelled')\<close>\<close>
  "eligibleForMakeup original uid b =
     (id' b = original \<and> user_id b = uid \<and> (status b = Confirmed \<or> status b = Cancelled))"

definition insertMakeup :: "store \<Rightarrow> nat \<Rightarrow> nat \<Rightarrow> string \<Rightarrow> store" where
  "insertMakeup s uid original rsn =
     s\<lparr>makeup_lessons := makeup_lessons s @
          [\<lparr>makeup_id = Suc (makeup_seq s), makeup_user_id = uid,
            original_booking_id = original, reason = rsn, makeup_status = MPending,
            makeup_date = None\<rparr>],
       makeup_seq := Suc (makeup_seq s)\<rparr>"

definition requestMakeupHandler ::
  "store \<Rightarrow> nat option \<Rightarrow> nat \<Rightarrow> string option \<Rightarrow> response \<times> store" where
  "requestMakeupHandler s u original rsn =
     (case u of
        None \<Rightarrow> (Response 401 ''User not authenticated'', s)
      | Some uid \<Rightarrow>
          (case find (eligibleForMakeup original uid) (bookings s) of
             None \<Rightarrow>
               (Response 404 ''Original booking not found or not eligible for make-up'', s)
           | Some originalBooking \<Rightarrow>
               if countGe (pendingCount s uid)
                    (parseInt (settingOr s ''max_pending_makeups'' ''2''))
               then (Response 400 ''Maximum pending make-up lessons allowed'', s)
               else
                 (case rsn of
                    None \<Rightarrow> (Response 500 ''Failed to create make-up lesson request'', s)
                  | Some r \<Rightarrow>
                      (Response 200 ''Make-up lesson request created successfully'',
                       insertMakeup s uid original r))))"

definition requestMakeup ::
  "store \<Rightarrow> nat option \<Rightarrow> nat \<Rightarrow> string option \<Rightarrow> response \<times> store" where
  \<comment> \<open>\<open>router.post('/', authenticateToken, checkMakeupPolicy, handler)\<close>\<close>
  "requestMakeup s u original rsn =
     (case checkMakeupPolicy s u of
        Some r \<Rightarrow> (r, s)
      | None \<Rightarrow> requestMakeupHandler s u original rsn)"

definition scheduleMakeup :: "store \<Rightarrow> nat \<Rightarrow> string option \<Rightarrow> response \<times> store" where
  \<comment> \<open>\<open>UPDATE makeup_lessons SET makeup_date = ?, status = 'scheduled' WHERE id = ?\<close>\<close>
  "scheduleMakeup s mid d =
     (Response 200 ''Make-up lesson scheduled successfully'',
      s\<lparr>makeup_lessons :=
          map (\<lambda>m. if makeup_id m = mid
                    then m\<lparr>makeup_date := d, makeup_status := MScheduled\<rparr> else m)
            (makeup_lessons s)\<rparr>)"

definition completeMakeup :: "store \<Rightarrow> nat \<Rightarrow> response \<times> store" where
  \<comment> \<open>\<open>UPDATE makeup_lessons SET status = 'completed' WHERE id = ?\<close>\<close>
  "completeMakeup s mid =
     (Response 200 ''Make-up lesson marked as completed'',
      s\<lparr>makeup_lessons :=
          map (\<lambda>m. if makeup_id m = mid then m\<lparr>makeup_status := MCompleted\<rparr> else m)
            (makeup_lessons s)\<rparr>)"

section \<open>A seeded store\<close>

text \<open>
  The settings and blackout ranges that \<open>createTables\<close> inserts, with one client
  (user 7) holding a 60-minute lesson on 2025-11-10 at 22:00 UTC. The studio's zone is
  Pacific time, eight hours west of Greenwich in November.
\<close>

definition seedSettings :: "(string \<times> string) list" where
  "seedSettings =
     [(''business_hours_start'', ''09:00''), (''business_hours_end'', ''18:00''),
      (''lesson_30_price'', ''60.00''), (''lesson_45_price'', ''80.00''),
      (''lesson_60_price'', ''95.00''), (''max_reschedules_per_month'', ''2''),
      (''max_pending_makeups'', ''2''), (''cancellation_policy_hours'', ''24''),
      (''academic_year_start'', ''2025-09-01''), (''academic_year_end'', ''2026-06-30'')]"

definition seedBlackouts :: "blackout_date list" where
  "seedBlackouts =
     [\<lparr>start_date = (2025, 11, 24), end_date = (2025, 11, 29),
       blackout_reason = ''Thanksgiving Break'', is_active = True\<rparr>,
      \<lparr>start_date = (2025, 12, 19), end_date = (2026, 1, 3),
       blackout_reason = ''Winter Break'', is_active = True\<rparr>]"

definition lesson1 :: booking where
  "lesson1 =
     \<lparr>id' = 1, user_id = 7, lesson_date = 1762812000000, duration = 60, price = 85,
      status = Confirmed, notes' = None, reschedule_count = 0, original_date = None,
      cancellation_reason = None, cancelled_at = None, google_calendar_event_id = None\<rparr>"

definition lesson2 :: booking where
  \<comment> \<open>the same client's lesson on the last day of November, 2025-11-30 at 23:00 UTC\<close>
  "lesson2 =
     \<lparr>id' = 2, user_id = 7, lesson_date = 1764543600000, duration = 60, price = 85,
      status = Confirmed, notes' = None, reschedule_count = 0, original_date = None,
      cancellation_reason = None, cancelled_at = None, google_calendar_event_id = None\<rparr>"

definition studio :: store where
  "studio =
     \<lparr>bookings = [lesson1, lesson2], payments = [], calendar_sync_log = [], makeup_lessons = [],
      blackout_dates = seedBlackouts, recurring_bookings = [], billing_cycles = [],
      settings = seedSettings, calendar_sync_enabled = False, bookings_seq = 2,
      makeup_seq = 0, recurring_seq = 0\<rparr>"

definition cancelRequest :: request where
  "cancelRequest =
     \<lparr>user = Some 7, params_id = 1, body_lesson_date = Missing, body_new_date = Missing,
      body_duration = None, body_notes = None\<rparr>"

definition pacific :: int where
  \<comment> \<open>Pacific standard time. The zone is an hour nearer to Greenwich from March to early
      November; the lessons of the examples all lie between 2 November 2025 and
      8 March 2026, and midnight UTC is the previous local day at either offset.\<close>
  "pacific = - 480"

definition rescheduleRequest :: request where
  \<comment> \<open>move lesson 1 to 2025-11-20 at 18:00 UTC, the date given in both body fields\<close>
  "rescheduleRequest =
     \<lparr>user = Some 7, params_id = 1, body_lesson_date = Timestamp 1763661600000,
      body_new_date = Timestamp 1763661600000, body_duration = None, body_notes = None\<rparr>"

definition crossMonthRequest :: request where
  \<comment> \<open>move lesson 2 from 2025-11-30 to 2025-12-01 at 17:00 UTC\<close>
  "crossMonthRequest =
     \<lparr>user = Some 7, params_id = 2, body_lesson_date = Timestamp 1764608400000,
      body_new_date = Timestamp 1764608400000, body_duration = None, body_notes = None\<rparr>"

definition movedLesson :: "nat \<Rightarrow> int \<Rightarrow> booking" where
  \<comment> \<open>a lesson of user 7 that has been rescheduled once, now at instant \<open>t\<close>\<close>
  "movedLesson n t =
     \<lparr>id' = n, user_id = 7, lesson_date = t, duration = 60, price = 85,
      status = Confirmed, notes' = None, reschedule_count = 1,
      original_date = Some 1762977600000, cancellation_reason = None, cancelled_at = None,
      google_calendar_event_id = None\<rparr>"

definition studioMonthEnd :: store where
  \<comment> \<open>user 7 has two rescheduled lessons on 2025-11-30 at 16:00 and 17:00 Pacific time,
      which are 2025-12-01 at 00:00 and 01:00 UTC\<close>
  "studioMonthEnd =
     studio\<lparr>bookings := [lesson1, movedLesson 5 1764547200000, movedLesson 6 1764550800000],
            bookings_seq := 6\<rparr>"

definition studioMidMonth :: store where
  \<comment> \<open>the same two lessons on 2025-11-15 at 12:00 and 13:00 Pacific time\<close>
  "studioMidMonth =
     studio\<lparr>bookings := [lesson1, movedLesson 5 1763236800000, movedLesson 6 1763240400000],
            bookings_seq := 6\<rparr>"

definition documentedRequest :: request where
  \<comment> \<open>the body of \<open>PUT /bookings/:id\<close> as the API documentation gives it: only
      \<open>lesson_date\<close> (and notes)\<close>
  "documentedRequest =
     \<lparr>user = Some 7, params_id = 1, body_lesson_date = Timestamp 1763661600000,
      body_new_date = Missing, body_duration = None,
      body_notes = Some ''Rescheduled due to conflict''\<rparr>"

definition pendingMakeup :: "nat \<Rightarrow> makeup_lesson" where
  "pendingMakeup n =
     \<lparr>makeup_id = n, makeup_user_id = 7, original_booking_id = 1, reason = ''illness'',
      makeup_status = MPending, makeup_date = None\<rparr>"

definition studioAtCap :: store where
  \<comment> \<open>the seeded store once user 7 has two pending make-up requests\<close>
  "studioAtCap = studio\<lparr>makeup_lessons := [pendingMakeup 1, pendingMakeup 2], makeup_seq := 2\<rparr>"

definition clock :: int where
  \<comment> \<open>2025-11-01 at 00:00 UTC\<close>
  "clock = 1761955200000"

definition bookRequest :: "nat \<Rightarrow> int \<Rightarrow> request" where
  \<comment> \<open>a client asks for a lesson on 2025-11-20 at 18:00 UTC\<close>
  "bookRequest uid dur =
     \<lparr>user = Some uid, params_id = 0, body_lesson_date = Timestamp 1763661600000,
      body_new_date = Missing, body_duration = Some dur, body_notes = None\<rparr>"

definition studioSynced :: store where
  \<comment> \<open>the seeded store with the calendar connected\<close>
  "studioSynced = studio\<lparr>calendar_sync_enabled := True\<rparr>"

definition withoutEventId :: "booking \<Rightarrow> booking" where
  \<comment> \<open>a booking row with its external-calendar reference left out of the comparison\<close>
  "withoutEventId b = b\<lparr>google_calendar_event_id := None\<rparr>"

definition lesson3 :: booking where
  \<comment> \<open>a lesson of user 7 that has an event in the external calendar\<close>
  "lesson3 =
     \<lparr>id' = 3, user_id = 7, lesson_date = 1763056800000, duration = 45, price = 70,
      status = Confirmed, notes' = None, reschedule_count = 0, original_date = None,
      cancellation_reason = None, cancelled_at = None,
      google_calendar_event_id = Some ''evt_3''\<rparr>"

definition studioLinked :: store where
  "studioLinked = studioSynced\<lparr>bookings := [lesson1, lesson2, lesson3], bookings_seq := 3\<rparr>"

definition linkedRequest :: request where
  \<comment> \<open>cancel lesson 3, or move it to 2025-11-20 at 18:00 UTC\<close>
  "linkedRequest =
     \<lparr>user = Some 7, params_id = 3, body_lesson_date = Timestamp 1763661600000,
      body_new_date = Timestamp 1763661600000, body_duration = None, body_notes = None\<rparr>"

definition weeklyRequest :: recurring_request where
  \<comment> \<open>a weekly 60-minute lesson from the first day of the academic year\<close>
  "weeklyRequest =
     \<lparr>rr_user = Some 7, rr_duration = 60, rr_day_of_week = 1, rr_time = ''15:00'',
      rr_frequency = ''weekly'', rr_start_date = ''2025-09-01'', rr_lesson_type = None\<rparr>"

definition noFaults :: "nat \<Rightarrow> bool" where
  "noFaults k = False"


definition cycleSummary :: "billing_cycle \<Rightarrow> int \<times> int \<times> int \<times> rat \<times> ymd \<times> ymd" where
  "cycleSummary c =
     (cycle_year c, cycle_month c, lessons_count c, total_amount c, billing_date c, due_date c)"


definition eveningLesson :: booking where
  \<comment> \<open>a pending lesson on 2025-11-10 at 17:00 Pacific time, which is 2025-11-11 01:00 UTC\<close>
  "eveningLesson =
     \<lparr>id' = 4, user_id = 8, lesson_date = 1762822800000, duration = 60, price = 85,
      status = Pending, notes' = None, reschedule_count = 0, original_date = None,
      cancellation_reason = None, cancelled_at = None, google_calendar_event_id = None\<rparr>"

definition studioEvening :: store where
  "studioEvening = studio\<lparr>bookings := [lesson1, lesson2, eveningLesson], bookings_seq := 4\<rparr>"

definition busyMorning :: "(int \<times> int) list" where
  \<comment> \<open>the external calendar reports 2025-11-10 from 9:00 to 10:00 Pacific time as busy\<close>
  "busyMorning = [(1762794000000, 1762797600000)]"

section \<open>Properties\<close>

subsection \<open>Lookups and frame lemmas shared by the routes\<close>

lemma find_owned:
  "find (\<lambda>b. id' b = i) xs = Some b \<Longrightarrow> user_id b = u \<Longrightarrow>
   find (\<lambda>b. id' b = i \<and> user_id b = u) xs = Some b"
  by (induction xs) (auto split: if_splits)

lemma find_map_same_id:
  assumes "\<And>x. id' (g x) = id' x"
  shows "find (\<lambda>x. id' x = i) (map (\<lambda>x. if id' x = i then g x else x) xs) =
         map_option g (find (\<lambda>x. id' x = i) xs)"
  using assms by (induction xs) auto

lemma hours_boundary:
  "of_int p \<le> hoursUntilLesson t now \<longleftrightarrow> p * 3600000 \<le> t - now"
proof -
  have "(of_int p :: rat) \<le> of_int (t - now) / 3600000 \<longleftrightarrow>
        (of_int p :: rat) * 3600000 \<le> of_int (t - now)"
    by (simp add: pos_le_divide_eq)
  also have "\<dots> \<longleftrightarrow> (of_int (p * 3600000) :: rat) \<le> of_int (t - now)"
    by simp
  also have "\<dots> \<longleftrightarrow> p * 3600000 \<le> t - now"
    by (simp only: of_int_le_iff)
  finally show ?thesis by (simp add: hoursUntilLesson_def)
qed

lemma pushChanged_bookings:
  "bookings (snd (pushChanged s act failure b pushed)) = bookings s"
  by (simp add: pushChanged_def logSync_def split: ext.splits)

lemma pushChanged_payments:
  "payments (snd (pushChanged s act failure b pushed)) = payments s"
  by (simp add: pushChanged_def logSync_def split: ext.splits)

subsection \<open>Cancellation: the gate and the two paths\<close>

lemma checkCancellationPolicy_found:
  assumes "user req = Some uid"
    and "find (\<lambda>x. id' x = params_id req) (bookings s) = Some b"
    and "user_id b = uid"
    and "parseInt (settingOr s ''cancellation_policy_hours'' ''24'') = Some policyHours"
  shows "checkCancellationPolicy s now req =
           Inr \<lparr>cancellationAllowed = (of_int policyHours \<le> hoursUntilLesson (lesson_date b) now),
                rescheduleAllowed = (of_int policyHours \<le> hoursUntilLesson (lesson_date b) now),
                makeupAllowed = True\<rparr>"
  using assms find_owned [of "params_id req" "bookings s" b uid]
  by (simp add: checkCancellationPolicy_def geNumber_def Let_def)

lemma cancel_in_time:
  assumes "user req = Some uid"
    and "find (\<lambda>x. id' x = params_id req) (bookings s) = Some b"
    and "user_id b = uid"
    and "parseInt (settingOr s ''cancellation_policy_hours'' ''24'') = Some policyHours"
    and "of_int policyHours \<le> hoursUntilLesson (lesson_date b) now"
  shows "payments (snd (cancelBooking s now deleted req)) = payments s"
    and "find (\<lambda>x. id' x = params_id req) (bookings (snd (cancelBooking s now deleted req))) =
           Some (b\<lparr>status := Cancelled, cancelled_at := Some now\<rparr>)"
proof -
  have fb: "find (\<lambda>x. id' x = params_id req \<and> user_id x = uid) (bookings s) = Some b"
    using assms(2,3) by (rule find_owned)
  have eq: "cancelBooking s now deleted req = cancelHandler s now deleted req"
    using assms(5)
    by (simp add: cancelBooking_def checkCancellationPolicy_found [OF assms(1-4)]
        enforceCancellationCharging_def)
  show "payments (snd (cancelBooking s now deleted req)) = payments s"
    by (simp add: eq cancelHandler_def assms(1) fb Let_def case_prod_beta pushChanged_payments)
  show "find (\<lambda>x. id' x = params_id req) (bookings (snd (cancelBooking s now deleted req))) =
           Some (b\<lparr>status := Cancelled, cancelled_at := Some now\<rparr>)"
    by (simp add: eq cancelHandler_def assms(1,2) fb Let_def case_prod_beta pushChanged_bookings
        find_map_same_id)
qed

lemma cancel_late:
  assumes "user req = Some uid"
    and "find (\<lambda>x. id' x = params_id req) (bookings s) = Some b"
    and "user_id b = uid"
    and "parseInt (settingOr s ''cancellation_policy_hours'' ''24'') = Some policyHours"
    and "\<not> of_int policyHours \<le> hoursUntilLesson (lesson_date b) now"
  shows "cancelBooking s now deleted req =
           (Response 200
              ''Booking cancelled with automatic charge due to 24-hour policy violation'',
            s\<lparr>payments := payments s @ [lateCancellationFee (params_id req) b],
              bookings := map (\<lambda>x. if id' x = params_id req
                                  then x\<lparr>status := Cancelled,
                                         cancellation_reason :=
                                           Some ''Late cancellation - automatic charge applied'',
                                         cancelled_at := Some now\<rparr>
                                  else x) (bookings s)\<rparr>)"
  using assms(2,5)
  by (simp add: cancelBooking_def checkCancellationPolicy_found [OF assms(1-4)]
      enforceCancellationCharging_def Let_def)

lemma studio_hours: "parseInt (settingOr studio ''cancellation_policy_hours'' ''24'') = Some 24"
  by code_simp

lemma studio_find1: "find (\<lambda>x. id' x = params_id cancelRequest) (bookings studio) = Some lesson1"
  by (simp add: studio_def cancelRequest_def lesson1_def)

subsection \<open>Cancellation window\<close>

text \<open>
  C2. For a cancellation request of a client who owns the booking, free cancellation is
  allowed if and only if \<open>hoursUntilLesson = lessonStart - now\<close> is at least the
  configured \<open>cancellation_policy_hours\<close> (default 24), the boundary included: exactly
  that many hours ahead is allowed. When it is allowed no payment is recorded and the
  booking is cancelled; when it is denied a pending payment of the full lesson price with
  reference \<open>late_cancellation_fee\<close> is recorded and the booking is still cancelled, with
  a cancellation reason that names the automatic charge.
\<close>

theorem cancellation_policy:
  assumes u: "user req = Some uid"
    and b: "find (\<lambda>x. id' x = params_id req) (bookings s) = Some b"
    and own: "user_id b = uid"
    and hrs: "parseInt (settingOr s ''cancellation_policy_hours'' ''24'') = Some policyHours"
  shows "(case checkCancellationPolicy s now req of
            Inl r \<Rightarrow> False
          | Inr checks \<Rightarrow>
              cancellationAllowed checks =
                (of_int policyHours \<le> hoursUntilLesson (lesson_date b) now)) \<and>
         ((of_int policyHours \<le> hoursUntilLesson (lesson_date b) now) =
            (policyHours * 3600000 \<le> lesson_date b - now)) \<and>
         (if of_int policyHours \<le> hoursUntilLesson (lesson_date b) now
          then payments (snd (cancelBooking s now deleted req)) = payments s \<and>
               find (\<lambda>x. id' x = params_id req)
                 (bookings (snd (cancelBooking s now deleted req))) =
                 Some (b\<lparr>status := Cancelled, cancelled_at := Some now\<rparr>)
          else payments (snd (cancelBooking s now deleted req)) =
                 payments s @ [\<lparr>booking_id = params_id req, amount = price b,
                                 payment_method = ''automatic_charge'',
                                 payment_status = ''pending'',
                                 payment_reference = ''late_cancellation_fee''\<rparr>] \<and>
               find (\<lambda>x. id' x = params_id req)
                 (bookings (snd (cancelBooking s now deleted req))) =
                 Some (b\<lparr>status := Cancelled,
                         cancellation_reason :=
                           Some ''Late cancellation - automatic charge applied'',
                         cancelled_at := Some now\<rparr>))"
proof (intro conjI)
  show "case checkCancellationPolicy s now req of
            Inl r \<Rightarrow> False
          | Inr checks \<Rightarrow>
              cancellationAllowed checks =
                (of_int policyHours \<le> hoursUntilLesson (lesson_date b) now)"
    by (simp add: checkCancellationPolicy_found [OF assms])
  show "(of_int policyHours \<le> hoursUntilLesson (lesson_date b) now) =
            (policyHours * 3600000 \<le> lesson_date b - now)"
    by (rule hours_boundary)
  show "if of_int policyHours \<le> hoursUntilLesson (lesson_date b) now
          then payments (snd (cancelBooking s now deleted req)) = payments s \<and>
               find (\<lambda>x. id' x = params_id req)
                 (bookings (snd (cancelBooking s now deleted req))) =
                 Some (b\<lparr>status := Cancelled, cancelled_at := Some now\<rparr>)
          else payments (snd (cancelBooking s now deleted req)) =
                 payments s @ [\<lparr>booking_id = params_id req, amount = price b,
                                 payment_method = ''automatic_charge'',
                                 payment_status = ''pending'',
                                 payment_reference = ''late_cancellation_fee''\<rparr>] \<and>
               find (\<lambda>x. id' x = params_id req)
                 (bookings (snd (cancelBooking s now deleted req))) =
                 Some (b\<lparr>status := Cancelled,
                         cancellation_reason :=
                           Some ''Late cancellation - automatic charge applied'',
                         cancelled_at := Some now\<rparr>)"
  proof (cases "of_int policyHours \<le> hoursUntilLesson (lesson_date b) now")
    case True
    then show ?thesis
      using cancel_in_time [OF assms True] by simp
  next
    case False
    then show ?thesis
      using b by (simp add: cancel_late [OF assms False] lateCancellationFee_def find_map_same_id)
  qed
qed

theorem cancellation_policy_witness:
  "payments (snd (cancelBooking studio 1762725600000 (Returns True) cancelRequest)) =
     payments studio \<and>
   find (\<lambda>x. id' x = params_id cancelRequest)
     (bookings (snd (cancelBooking studio 1762725600000 (Returns True) cancelRequest))) =
     Some (lesson1\<lparr>status := Cancelled, cancelled_at := Some 1762725600000\<rparr>) \<and>
   payments (snd (cancelBooking studio 1762725601000 (Returns True) cancelRequest)) =
     payments studio @
     [\<lparr>booking_id = params_id cancelRequest, amount = price lesson1,
       payment_method = ''automatic_charge'', payment_status = ''pending'',
       payment_reference = ''late_cancellation_fee''\<rparr>] \<and>
   find (\<lambda>x. id' x = params_id cancelRequest)
     (bookings (snd (cancelBooking studio 1762725601000 (Returns True) cancelRequest))) =
     Some (lesson1\<lparr>status := Cancelled,
             cancellation_reason := Some ''Late cancellation - automatic charge applied'',
             cancelled_at := Some 1762725601000\<rparr>)"
proof -
  have u: "user cancelRequest = Some 7" by (simp add: cancelRequest_def)
  have own: "user_id lesson1 = 7" by (simp add: lesson1_def)
  note pol = cancellation_policy [OF u studio_find1 own studio_hours]
  have a: "rat_of_int 24 \<le> hoursUntilLesson (lesson_date lesson1) 1762725600000"
    by (simp add: hoursUntilLesson_def lesson1_def)
  have b: "\<not> rat_of_int 24 \<le> hoursUntilLesson (lesson_date lesson1) 1762725601000"
    by (simp add: hoursUntilLesson_def lesson1_def)
  from pol [of 1762725600000 "Returns True"] a
  have "payments (snd (cancelBooking studio 1762725600000 (Returns True) cancelRequest)) =
          payments studio \<and>
        find (\<lambda>x. id' x = params_id cancelRequest)
          (bookings (snd (cancelBooking studio 1762725600000 (Returns True) cancelRequest))) =
          Some (lesson1\<lparr>status := Cancelled, cancelled_at := Some 1762725600000\<rparr>)"
    by simp
  moreover from pol [of 1762725601000 "Returns True"] b
  have "payments (snd (cancelBooking studio 1762725601000 (Returns True) cancelRequest)) =
          payments studio @
          [\<lparr>booking_id = params_id cancelRequest, amount = price lesson1,
            payment_method = ''automatic_charge'', payment_status = ''pending'',
            payment_reference = ''late_cancellation_fee''\<rparr>] \<and>
        find (\<lambda>x. id' x = params_id cancelRequest)
          (bookings (snd (cancelBooking studio 1762725601000 (Returns True) cancelRequest))) =
          Some (lesson1\<lparr>status := Cancelled,
                  cancellation_reason := Some ''Late cancellation - automatic charge applied'',
                  cancelled_at := Some 1762725601000\<rparr>)"
    by simp
  ultimately show ?thesis by blast
qed

subsection \<open>Rescheduling: the gate, the route and their two date fields\<close>

lemma strictEq_sym: "strictEq a b = strictEq b a"
  by (cases a; cases b) (auto simp: strictEq_def)

lemma strictEq_None: "\<not> strictEq a None" "\<not> strictEq None b"
  by (cases a) (simp_all add: strictEq_def)

lemma sameMonth_invalid: "\<not> sameMonth tz d None"
  by (simp add: sameMonth_def getMonth_def strictEq_None)

lemma checkReschedulePolicy_code:
  "checkReschedulePolicy tz s req = Some r \<Longrightarrow> code r \<noteq> 200"
  by (auto simp: checkReschedulePolicy_def Let_def split: option.splits if_splits)

lemma checkBlackoutDates_code:
  "checkBlackoutDates s req = Some r \<Longrightarrow> code r \<noteq> 200"
  by (auto simp: checkBlackoutDates_def Let_def split: option.splits if_splits)

lemma checkReschedulePolicy_next:
  assumes "checkReschedulePolicy tz s req = None"
  shows "\<exists>uid b. user req = Some uid \<and>
           find (\<lambda>b. id' b = params_id req \<and> user_id b = uid) (bookings s) = Some b \<and>
           sameMonth tz (Some (lesson_date b)) (new_Date (body_new_date req)) \<and>
           \<not> countGe (rescheduleCount s uid (fst (snd (localDate tz (lesson_date b))))
                        (fst (localDate tz (lesson_date b))))
                (parseInt (settingOr s ''max_reschedules_per_month'' ''2''))"
  using assms
  by (auto simp: checkReschedulePolicy_def Let_def split: option.splits if_splits)

lemma rescheduleHandler_ok:
  assumes "code (fst (rescheduleHandler tz s updated req)) = 200"
  shows "\<exists>uid b t. user req = Some uid \<and>
           find (\<lambda>b. id' b = params_id req \<and> user_id b = uid) (bookings s) = Some b \<and>
           body_lesson_date req = Timestamp t \<and>
           sameMonth tz (Some (lesson_date b)) (Some t) \<and>
           find (\<lambda>x. lesson_date x = t \<and> nonTerminal x \<and> id' x \<noteq> params_id req)
             (bookings s) = None"
proof -
  from assms obtain uid where u: "user req = Some uid"
    by (cases "user req") (auto simp: rescheduleHandler_def split: if_splits)
  from assms u obtain b where
    b: "find (\<lambda>b. id' b = params_id req \<and> user_id b = uid) (bookings s) = Some b"
    by (cases "find (\<lambda>b. id' b = params_id req \<and> user_id b = uid) (bookings s)")
       (auto simp: rescheduleHandler_def split: if_splits)
  from assms u b obtain t where t: "body_lesson_date req = Timestamp t"
    by (cases "body_lesson_date req")
       (auto simp: rescheduleHandler_def Let_def getMonth_def strictEq_None split: if_splits)
  from assms u b t have sm: "sameMonth tz (Some (lesson_date b)) (Some t)"
    by (auto simp: rescheduleHandler_def Let_def sameMonth_def strictEq_sym split: if_splits)
  from assms u b t sm
  have "find (\<lambda>x. lesson_date x = t \<and> nonTerminal x \<and> id' x \<noteq> params_id req)
          (bookings s) = None"
    by (auto simp: rescheduleHandler_def Let_def sameMonth_def strictEq_sym
        split: if_splits option.splits)
  with u b t sm show ?thesis by blast
qed

lemma rescheduleHandler_reject:
  assumes "code (fst (rescheduleHandler tz s updated req)) \<noteq> 200"
  shows "snd (rescheduleHandler tz s updated req) = s"
  using assms
  by (auto simp: rescheduleHandler_def Let_def case_prod_beta split: if_splits option.splits)

lemma rescheduleHandler_cross_month:
  assumes "user req = Some uid"
    and "find (\<lambda>b. id' b = params_id req \<and> user_id b = uid) (bookings s) = Some b"
    and "\<not> sameMonth tz (Some (lesson_date b)) (new_Date (body_lesson_date req))"
  shows "code (fst (rescheduleHandler tz s updated req)) = 400"
  using assms
  by (auto simp: rescheduleHandler_def Let_def sameMonth_def strictEq_sym)

lemma checkReschedulePolicy_400:
  assumes "user req = Some uid"
    and "find (\<lambda>b. id' b = params_id req \<and> user_id b = uid) (bookings s) = Some b"
    and "checkReschedulePolicy tz s req = Some r"
  shows "code r = 400"
  using assms
  by (auto simp: checkReschedulePolicy_def Let_def split: if_splits)

lemma checkBlackoutDates_valid_400:
  assumes "body_new_date req = Timestamp t" and "checkBlackoutDates s req = Some r"
  shows "code r = 400"
  using assms
  by (auto simp: checkBlackoutDates_def Let_def split: option.splits if_splits)

lemma rescheduleBooking_ok:
  assumes ok: "code (fst (rescheduleBooking tz s updated req)) = 200"
  shows "checkReschedulePolicy tz s req = None \<and>
         code (fst (rescheduleHandler tz s updated req)) = 200"
proof -
  have g: "checkReschedulePolicy tz s req = None"
    using ok checkReschedulePolicy_code [of tz s req]
    by (cases "checkReschedulePolicy tz s req") (auto simp: rescheduleBooking_def)
  have bl: "checkBlackoutDates s req = None"
    using ok g checkBlackoutDates_code [of s req]
    by (cases "checkBlackoutDates s req") (auto simp: rescheduleBooking_def)
  show ?thesis using ok g bl by (simp add: rescheduleBooking_def)
qed

lemma rescheduleBooking_reject:
  assumes "code (fst (rescheduleBooking tz s updated req)) \<noteq> 200"
  shows "snd (rescheduleBooking tz s updated req) = s"
  using assms rescheduleHandler_reject [of tz s updated req]
  by (auto simp: rescheduleBooking_def split: option.splits)

text \<open>
  What the gate and the route decide on a host that keeps one offset, in terms of the
  gate's own count: a reschedule request goes through only if the new date falls in the same calendar month and year (in
  the host's zone) as the booking's current date, and \<open>rescheduleCount\<close> is below
  \<open>max_reschedules_per_month\<close> (default 2). The new date is checked twice, as
  \<open>new_date\<close> by the policy gate and as \<open>lesson_date\<close> by the route; both must pass.
  A request that moves a booking into another month, such as from the last day of a month
  to the first day of the next, is answered 400 whatever the count is, and leaves the
  store as it was.
\<close>

theorem reschedule_policy:
  assumes lim: "parseInt (settingOr s ''max_reschedules_per_month'' ''2'') = Some maxReschedules"
  shows "(code (fst (rescheduleBooking tz s updated req)) = 200 \<longrightarrow>
            (\<exists>uid b t. user req = Some uid \<and>
               find (\<lambda>x. id' x = params_id req \<and> user_id x = uid) (bookings s) = Some b \<and>
               body_lesson_date req = Timestamp t \<and>
               sameMonth tz (Some (lesson_date b)) (Some t) \<and>
               sameMonth tz (Some (lesson_date b)) (new_Date (body_new_date req)) \<and>
               int (rescheduleCount s uid (fst (snd (localDate tz (lesson_date b))))
                      (fst (localDate tz (lesson_date b)))) < maxReschedules)) \<and>
         (\<forall>uid b. user req = Some uid \<longrightarrow>
            find (\<lambda>x. id' x = params_id req \<and> user_id x = uid) (bookings s) = Some b \<longrightarrow>
            \<not> sameMonth tz (Some (lesson_date b)) (new_Date (body_lesson_date req)) \<longrightarrow>
            code (fst (rescheduleBooking tz s updated req)) = 400 \<and>
            snd (rescheduleBooking tz s updated req) = s)"
proof (intro conjI impI allI)
  assume ok: "code (fst (rescheduleBooking tz s updated req)) = 200"
  from rescheduleBooking_ok [OF ok]
  have g: "checkReschedulePolicy tz s req = None"
    and h: "code (fst (rescheduleHandler tz s updated req)) = 200" by simp_all
  from checkReschedulePolicy_next [OF g] obtain uid b where
    u: "user req = Some uid" and
    b: "find (\<lambda>x. id' x = params_id req \<and> user_id x = uid) (bookings s) = Some b" and
    sm: "sameMonth tz (Some (lesson_date b)) (new_Date (body_new_date req))" and
    cnt: "\<not> countGe (rescheduleCount s uid (fst (snd (localDate tz (lesson_date b))))
                 (fst (localDate tz (lesson_date b))))
              (parseInt (settingOr s ''max_reschedules_per_month'' ''2''))"
    by blast
  from rescheduleHandler_ok [OF h] u b obtain t where
    t: "body_lesson_date req = Timestamp t" and
    sm': "sameMonth tz (Some (lesson_date b)) (Some t)"
    by auto
  from cnt lim
  have "int (rescheduleCount s uid (fst (snd (localDate tz (lesson_date b))))
               (fst (localDate tz (lesson_date b)))) < maxReschedules"
    by (simp add: countGe_def)
  with u b t sm sm'
  show "\<exists>uid b t. user req = Some uid \<and>
               find (\<lambda>x. id' x = params_id req \<and> user_id x = uid) (bookings s) = Some b \<and>
               body_lesson_date req = Timestamp t \<and>
               sameMonth tz (Some (lesson_date b)) (Some t) \<and>
               sameMonth tz (Some (lesson_date b)) (new_Date (body_new_date req)) \<and>
               int (rescheduleCount s uid (fst (snd (localDate tz (lesson_date b))))
                      (fst (localDate tz (lesson_date b)))) < maxReschedules"
    by blast
next
  fix uid b
  assume u: "user req = Some uid"
    and b: "find (\<lambda>x. id' x = params_id req \<and> user_id x = uid) (bookings s) = Some b"
    and cross: "\<not> sameMonth tz (Some (lesson_date b)) (new_Date (body_lesson_date req))"
  show "code (fst (rescheduleBooking tz s updated req)) = 400"
  proof (cases "checkReschedulePolicy tz s req")
    case (Some r)
    with checkReschedulePolicy_400 [OF u b Some] show ?thesis
      by (simp add: rescheduleBooking_def)
  next
    case None
    from checkReschedulePolicy_next [OF None] u b
    have "sameMonth tz (Some (lesson_date b)) (new_Date (body_new_date req))" by auto
    then obtain t' where nd: "body_new_date req = Timestamp t'"
      using sameMonth_invalid [of tz "Some (lesson_date b)"]
      by (cases "body_new_date req") auto
    show ?thesis
    proof (cases "checkBlackoutDates s req")
      case (Some r)
      with checkBlackoutDates_valid_400 [OF nd Some] None show ?thesis
        by (simp add: rescheduleBooking_def)
    next
      case bl: None
      with None rescheduleHandler_cross_month [OF u b cross] show ?thesis
        by (simp add: rescheduleBooking_def)
    qed
  qed
  then show "snd (rescheduleBooking tz s updated req) = s"
    using rescheduleBooking_reject [of tz s updated req] by simp
qed

lemma studio_max_reschedules:
  "parseInt (settingOr studio ''max_reschedules_per_month'' ''2'') = Some 2"
  by code_simp

lemma studio_reschedule_accepted:
  "code (fst (rescheduleBooking pacific studio (Returns True) rescheduleRequest)) = 200"
  by code_simp

lemma studio_cross_month:
  "user crossMonthRequest = Some 7"
  "find (\<lambda>x. id' x = params_id crossMonthRequest \<and> user_id x = 7) (bookings studio) =
     Some lesson2"
  "\<not> sameMonth pacific (Some (lesson_date lesson2))
       (new_Date (body_lesson_date crossMonthRequest))"
  "localDate pacific (lesson_date lesson2) = (2025, 11, 30)"
  "localDate pacific 1764608400000 = (2025, 12, 1)"
  by code_simp+

theorem reschedule_policy_witness:
  "(\<exists>uid b t. user rescheduleRequest = Some uid \<and>
      find (\<lambda>x. id' x = params_id rescheduleRequest \<and> user_id x = uid) (bookings studio) =
        Some b \<and>
      body_lesson_date rescheduleRequest = Timestamp t \<and>
      sameMonth pacific (Some (lesson_date b)) (Some t) \<and>
      sameMonth pacific (Some (lesson_date b)) (new_Date (body_new_date rescheduleRequest)) \<and>
      int (rescheduleCount studio uid (fst (snd (localDate pacific (lesson_date b))))
             (fst (localDate pacific (lesson_date b)))) < 2) \<and>
   localDate pacific (lesson_date lesson2) = (2025, 11, 30) \<and>
   localDate pacific 1764608400000 = (2025, 12, 1) \<and>
   code (fst (rescheduleBooking pacific studio (Returns True) crossMonthRequest)) = 400 \<and>
   snd (rescheduleBooking pacific studio (Returns True) crossMonthRequest) = studio"
  using reschedule_policy [OF studio_max_reschedules, of pacific "Returns True" rescheduleRequest]
    reschedule_policy [OF studio_max_reschedules, of pacific "Returns True" crossMonthRequest]
    studio_reschedule_accepted studio_cross_month
  by blast

text \<open>
  C3. The quota is about the client's already rescheduled bookings of the month. The gate
  counts them with \<open>strftime\<close> on the stored UTC text, against the month number it took
  in the host's zone. On a host in the studio's zone a lesson in the evening of the last
  day of a month is stored under the first day of the next month, so it is not counted:
  a client with two rescheduled lessons on 30 November, at the limit of 2, moves a third
  lesson within November and is answered 200. With the two lessons in the middle of the
  month the same request is answered 400.
\<close>

theorem month_end_lessons_escape_the_quota:
  "parseInt (settingOr studioMonthEnd ''max_reschedules_per_month'' ''2'') = Some 2 \<and>
   map (\<lambda>b. (id' b, reschedule_count b, localDate pacific (lesson_date b), utcDate (lesson_date b)))
     (bookings studioMonthEnd) =
     [(1, 0, (2025, 11, 10), (2025, 11, 10)),
      (5, 1, (2025, 11, 30), (2025, 12, 1)),
      (6, 1, (2025, 11, 30), (2025, 12, 1))] \<and>
   rescheduledInMonth pacific studioMonthEnd 7 11 2025 = 2 \<and>
   rescheduleCount studioMonthEnd 7 11 2025 = 0 \<and>
   map_option (localDate pacific) (new_Date (body_new_date rescheduleRequest)) =
     Some (2025, 11, 20) \<and>
   fst (rescheduleBooking pacific studioMonthEnd (Returns True) rescheduleRequest) =
     Response 200 ''Booking rescheduled successfully'' \<and>
   map (\<lambda>b. (id' b, reschedule_count b, localDate pacific (lesson_date b)))
     (bookings (snd (rescheduleBooking pacific studioMonthEnd (Returns True) rescheduleRequest))) =
     [(1, 1, (2025, 11, 20)), (5, 1, (2025, 11, 30)), (6, 1, (2025, 11, 30))] \<and>
   rescheduledInMonth pacific
     (snd (rescheduleBooking pacific studioMonthEnd (Returns True) rescheduleRequest)) 7 11 2025 = 3 \<and>
   rescheduledInMonth pacific studioMidMonth 7 11 2025 = 2 \<and>
   rescheduleCount studioMidMonth 7 11 2025 = 2 \<and>
   rescheduleBooking pacific studioMidMonth (Returns True) rescheduleRequest =
     (Response 400 ''Maximum reschedules per month allowed'', studioMidMonth)"
  by code_simp

text \<open>
  C10. The policy gate reads the proposed date from the body field \<open>new_date\<close>, the
  route reads it from \<open>lesson_date\<close>. A request of an authenticated client for one of
  their bookings that carries \<open>lesson_date\<close> but no \<open>new_date\<close> is compared against
  an invalid date and answered 400 "Lessons can only be rescheduled within the same month"
  by the gate, whatever \<open>lesson_date\<close> is, and nothing is written.
\<close>

theorem reschedule_gate_reads_new_date:
  assumes "body_new_date req = Missing"
    and "user req = Some uid"
    and "find (\<lambda>x. id' x = params_id req \<and> user_id x = uid) (bookings s) = Some b"
  shows "new_Date (body_new_date req) = None \<and>
         checkReschedulePolicy tz s req =
           Some (Response 400 ''Lessons can only be rescheduled within the same month'') \<and>
         rescheduleBooking tz s updated req =
           (Response 400 ''Lessons can only be rescheduled within the same month'', s)"
  using assms
  by (simp add: rescheduleBooking_def checkReschedulePolicy_def Let_def sameMonth_invalid)

theorem reschedule_gate_reads_new_date_witness:
  "sameMonth pacific (Some (lesson_date lesson1))
     (new_Date (body_lesson_date documentedRequest)) \<and>
   new_Date (body_new_date documentedRequest) = None \<and>
   checkReschedulePolicy pacific studio documentedRequest =
     Some (Response 400 ''Lessons can only be rescheduled within the same month'') \<and>
   rescheduleBooking pacific studio (Returns True) documentedRequest =
     (Response 400 ''Lessons can only be rescheduled within the same month'', studio)"
proof -
  have a: "body_new_date documentedRequest = Missing"
    by (simp add: documentedRequest_def)
  have u: "user documentedRequest = Some 7"
    by (simp add: documentedRequest_def)
  have b: "find (\<lambda>x. id' x = params_id documentedRequest \<and> user_id x = 7) (bookings studio) =
             Some lesson1"
    by (simp add: documentedRequest_def studio_def lesson1_def)
  have sm: "sameMonth pacific (Some (lesson_date lesson1))
              (new_Date (body_lesson_date documentedRequest))"
    by code_simp
  from reschedule_gate_reads_new_date [OF a u b, of pacific "Returns True"] sm
  show ?thesis by simp
qed

subsection \<open>Make-up requests and their cap\<close>

lemma pendingCount_after_update:
  assumes "distinct (map makeup_id ms)" and "m \<in> set ms"
    and "makeup_user_id m = uid" and "makeup_status m = MPending"
    and "\<And>x. makeup_user_id (f x) = makeup_user_id x"
    and "\<And>x. makeup_status (f x) \<noteq> MPending"
  shows "Suc (length (filter (\<lambda>x. makeup_user_id x = uid \<and> makeup_status x = MPending)
                 (map (\<lambda>x. if makeup_id x = makeup_id m then f x else x) ms))) =
         length (filter (\<lambda>x. makeup_user_id x = uid \<and> makeup_status x = MPending) ms)"
  using assms(1,2)
proof (induction ms)
  case Nil
  then show ?case by simp
next
  case (Cons a ms)
  show ?case
  proof (cases "a = m")
    case True
    with Cons.prems have "makeup_id m \<notin> makeup_id ` set ms" by simp
    then have "map (\<lambda>x. if makeup_id x = makeup_id m then f x else x) ms = ms"
      by (intro map_idI) (metis imageI)
    with True assms(3-6) show ?thesis by simp
  next
    case False
    with Cons.prems have "m \<in> set ms" and "makeup_id a \<noteq> makeup_id m" by auto
    with Cons show ?thesis by simp
  qed
qed

lemma pendingCount_scheduled:
  assumes "distinct (map makeup_id (makeup_lessons s))" and "m \<in> set (makeup_lessons s)"
    and "makeup_user_id m = uid" and "makeup_status m = MPending"
  shows "Suc (pendingCount (snd (scheduleMakeup s (makeup_id m) d)) uid) = pendingCount s uid"
  using pendingCount_after_update [OF assms,
      of "\<lambda>x. x\<lparr>makeup_date := d, makeup_status := MScheduled\<rparr>"]
  by (simp add: pendingCount_def scheduleMakeup_def)

lemma pendingCount_completed:
  assumes "distinct (map makeup_id (makeup_lessons s))" and "m \<in> set (makeup_lessons s)"
    and "makeup_user_id m = uid" and "makeup_status m = MPending"
  shows "Suc (pendingCount (snd (completeMakeup s (makeup_id m))) uid) = pendingCount s uid"
  using pendingCount_after_update [OF assms, of "\<lambda>x. x\<lparr>makeup_status := MCompleted\<rparr>"]
  by (simp add: pendingCount_def completeMakeup_def)

lemma requestMakeup_cases:
  assumes "parseInt (settingOr s ''max_pending_makeups'' ''2'') = Some maxPending"
    and "find (eligibleForMakeup original uid) (bookings s) = Some ob"
  shows "requestMakeup s (Some uid) original (Some rsn) =
           (if maxPending \<le> int (pendingCount s uid)
            then (Response 400 ''Maximum pending make-up lessons allowed'', s)
            else (Response 200 ''Make-up lesson request created successfully'',
                  insertMakeup s uid original rsn))"
  using assms
  by (simp add: requestMakeup_def checkMakeupPolicy_def requestMakeupHandler_def countGe_def
      Let_def)

lemma checkMakeupPolicy_iff:
  assumes "parseInt (settingOr s ''max_pending_makeups'' ''2'') = Some maxPending"
  shows "checkMakeupPolicy s (Some uid) =
           (if maxPending \<le> int (pendingCount s uid)
            then Some (Response 400 ''Maximum pending make-up lessons allowed'') else None)"
  using assms by (simp add: checkMakeupPolicy_def countGe_def Let_def)

lemma scheduleMakeup_frame:
  "settingOr (snd (scheduleMakeup s mid d)) k dflt = settingOr s k dflt"
  "bookings (snd (scheduleMakeup s mid d)) = bookings s"
  by (simp_all add: scheduleMakeup_def settingOr_def)

text \<open>
  C9. For an authenticated client asking for a make-up of an eligible booking, the request
  is denied by the cap exactly when the client already has \<open>max_pending_makeups\<close>
  (default 2) or more requests in status pending, and is recorded as a new pending request
  exactly when the client has fewer. A client with exactly \<open>max_pending_makeups\<close> pending
  requests is denied; once one of them has been scheduled, and so left the pending
  status, the same request succeeds.
\<close>

theorem makeup_cap:
  assumes lim: "parseInt (settingOr s ''max_pending_makeups'' ''2'') = Some maxPending"
    and ob: "find (eligibleForMakeup original uid) (bookings s) = Some ob"
  shows "((checkMakeupPolicy s (Some uid) =
             Some (Response 400 ''Maximum pending make-up lessons allowed'')) =
            (maxPending \<le> int (pendingCount s uid))) \<and>
         ((requestMakeup s (Some uid) original (Some rsn) =
             (Response 400 ''Maximum pending make-up lessons allowed'', s)) =
            (maxPending \<le> int (pendingCount s uid))) \<and>
         ((requestMakeup s (Some uid) original (Some rsn) =
             (Response 200 ''Make-up lesson request created successfully'',
              insertMakeup s uid original rsn)) =
            (int (pendingCount s uid) < maxPending)) \<and>
         (\<forall>m d. distinct (map makeup_id (makeup_lessons s)) \<longrightarrow>
            m \<in> set (makeup_lessons s) \<longrightarrow> makeup_user_id m = uid \<longrightarrow>
            makeup_status m = MPending \<longrightarrow> int (pendingCount s uid) = maxPending \<longrightarrow>
            requestMakeup s (Some uid) original (Some rsn) =
              (Response 400 ''Maximum pending make-up lessons allowed'', s) \<and>
            requestMakeup (snd (scheduleMakeup s (makeup_id m) d)) (Some uid) original
                (Some rsn) =
              (Response 200 ''Make-up lesson request created successfully'',
               insertMakeup (snd (scheduleMakeup s (makeup_id m) d)) uid original rsn))"
proof (intro conjI allI impI)
  show "(checkMakeupPolicy s (Some uid) =
             Some (Response 400 ''Maximum pending make-up lessons allowed'')) =
            (maxPending \<le> int (pendingCount s uid))"
    by (simp add: checkMakeupPolicy_iff [OF lim])
  show "(requestMakeup s (Some uid) original (Some rsn) =
             (Response 400 ''Maximum pending make-up lessons allowed'', s)) =
            (maxPending \<le> int (pendingCount s uid))"
    by (simp add: requestMakeup_cases [OF lim ob])
  show "(requestMakeup s (Some uid) original (Some rsn) =
             (Response 200 ''Make-up lesson request created successfully'',
              insertMakeup s uid original rsn)) =
            (int (pendingCount s uid) < maxPending)"
    by (auto simp: requestMakeup_cases [OF lim ob])
next
  fix m d
  assume dist: "distinct (map makeup_id (makeup_lessons s))"
    and m: "m \<in> set (makeup_lessons s)"
    and own: "makeup_user_id m = uid"
    and pend: "makeup_status m = MPending"
    and cap: "int (pendingCount s uid) = maxPending"
  let ?s' = "snd (scheduleMakeup s (makeup_id m) d)"
  from cap show "requestMakeup s (Some uid) original (Some rsn) =
              (Response 400 ''Maximum pending make-up lessons allowed'', s)"
    by (simp add: requestMakeup_cases [OF lim ob])
  have lim': "parseInt (settingOr ?s' ''max_pending_makeups'' ''2'') = Some maxPending"
    using lim by (simp add: scheduleMakeup_frame)
  have ob': "find (eligibleForMakeup original uid) (bookings ?s') = Some ob"
    using ob by (simp add: scheduleMakeup_frame)
  from pendingCount_scheduled [OF dist m own pend, of d] cap
  have "int (pendingCount ?s' uid) < maxPending" by linarith
  then show "requestMakeup ?s' (Some uid) original (Some rsn) =
              (Response 200 ''Make-up lesson request created successfully'',
               insertMakeup ?s' uid original rsn)"
    by (simp add: requestMakeup_cases [OF lim' ob'])
qed

lemma studioAtCap_facts:
  "parseInt (settingOr studioAtCap ''max_pending_makeups'' ''2'') = Some 2"
  "find (eligibleForMakeup 1 7) (bookings studioAtCap) = Some lesson1"
  "distinct (map makeup_id (makeup_lessons studioAtCap))"
  "pendingMakeup 1 \<in> set (makeup_lessons studioAtCap)"
  "makeup_user_id (pendingMakeup 1) = 7"
  "makeup_status (pendingMakeup 1) = MPending"
  "int (pendingCount studioAtCap 7) = 2"
  "makeup_id (pendingMakeup 1) = 1"
  by code_simp+

theorem makeup_cap_witness:
  "int (pendingCount studioAtCap 7) = 2 \<and>
   requestMakeup studioAtCap (Some 7) 1 (Some ''missed lesson'') =
     (Response 400 ''Maximum pending make-up lessons allowed'', studioAtCap) \<and>
   requestMakeup (snd (scheduleMakeup studioAtCap 1 (Some ''2025-11-15 10:00:00''))) (Some 7) 1
       (Some ''missed lesson'') =
     (Response 200 ''Make-up lesson request created successfully'',
      insertMakeup (snd (scheduleMakeup studioAtCap 1 (Some ''2025-11-15 10:00:00''))) 7 1
        ''missed lesson'')"
  using makeup_cap [OF studioAtCap_facts(1,2), of "''missed lesson''"] studioAtCap_facts(3-8)
  by metis

subsection \<open>Creating a booking\<close>

lemma pushCreated_rows:
  "map (\<lambda>b. (lesson_date b, status b)) (bookings (snd (pushCreated s lastID created))) =
   map (\<lambda>b. (lesson_date b, status b)) (bookings s)"
  by (auto simp: pushCreated_def logSync_def split: ext.splits option.splits)

lemma nonTerminal_starts_eq:
  assumes "map (\<lambda>b. (lesson_date b, status b)) xs = map (\<lambda>b. (lesson_date b, status b)) ys"
  shows "map lesson_date (filter nonTerminal xs) = map lesson_date (filter nonTerminal ys)"
  using assms
proof (induction xs arbitrary: ys)
  case Nil
  then show ?case by simp
next
  case (Cons x xs)
  then obtain y ys' where ys: "ys = y # ys'" by (cases ys) auto
  with Cons.prems have "lesson_date x = lesson_date y" "status x = status y"
    and "map (\<lambda>b. (lesson_date b, status b)) xs = map (\<lambda>b. (lesson_date b, status b)) ys'"
    by auto
  with Cons.IH [of ys'] ys show ?case by (simp add: nonTerminal_def)
qed

lemma doubleBooked_pushCreated:
  "doubleBooked (snd (pushCreated s lastID created)) = doubleBooked s"
  using nonTerminal_starts_eq [OF pushCreated_rows [of s lastID created]]
  by (simp add: doubleBooked_def)

lemma find_None_free:
  "find (\<lambda>b. lesson_date b = t \<and> nonTerminal b) xs = None \<Longrightarrow>
   t \<notin> set (map lesson_date (filter nonTerminal xs))"
  by (auto simp: find_None_iff)

lemma doubleBooked_insert:
  assumes "find (\<lambda>b. lesson_date b = t \<and> nonTerminal b) (bookings s) = None"
  shows "doubleBooked (insertBooking s uid t dur pr nts) = doubleBooked s"
  using find_None_free [OF assms]
  by (auto simp: doubleBooked_def insertBooking_def nonTerminal_def)

lemma createBookingHandler_sequential:
  "doubleBooked (snd (createBookingHandler s now created req)) = doubleBooked s"
  by (auto simp: createBookingHandler_def createBookingCheck_def createBookingWrite_def Let_def
      case_prod_beta doubleBooked_pushCreated doubleBooked_insert
      split: option.splits if_splits)

lemma handler_is_two_steps:
  "runSchedule now [0, 0] ([Arrived req], s) =
     ([Replied (fst (createBookingHandler s now (Returns None) req))],
      snd (createBookingHandler s now (Returns None) req))"
  by (auto simp: createBookingHandler_def split: sum.splits prod.splits)

lemma studio_not_doubleBooked: "\<not> doubleBooked studio"
  by code_simp

lemma one_after_the_other:
  "runSchedule clock [0, 0, 1, 1]
     ([Arrived (bookRequest 7 60), Arrived (bookRequest 8 60)], studio) =
   ([Replied (Response 201 ''Booking created successfully''),
     Replied (Response 400 ''This time slot is already booked'')],
    insertBooking studio 7 1763661600000 60 85 None)"
  by code_simp

text \<open>
  C1. Two requests for the same start must not both succeed. The handler's conflict query
  and its insert are two separate suspensions, and the \<open>bookings\<close> table has no
  uniqueness constraint on \<open>lesson_date\<close>: when two clients ask for 2025-11-20 18:00 UTC
  and both queries are answered before either insert runs, both requests are answered 201
  and the store ends with two pending bookings for that start. Run one after the other,
  the second is answered 400 (\<open>one_after_the_other\<close>), and no sequence of whole handler
  runs creates a double booking (\<open>createBookingHandler_sequential\<close>).
\<close>

theorem concurrent_requests_double_book:
  "\<not> doubleBooked studio \<and>
   (case runSchedule clock [0, 1, 0, 1]
           ([Arrived (bookRequest 7 60), Arrived (bookRequest 8 60)], studio) of
      (ts, s) \<Rightarrow>
        ts = [Replied (Response 201 ''Booking created successfully''),
              Replied (Response 201 ''Booking created successfully'')] \<and>
        doubleBooked s \<and>
        map (\<lambda>b. (user_id b, lesson_date b, status b)) (drop 2 (bookings s)) =
          [(7, 1763661600000, Pending), (8, 1763661600000, Pending)])"
  by code_simp

text \<open>
  C7. A request whose duration is not an offered one should be rejected with nothing
  written. The handler only rejects a missing or zero duration: a 17-minute lesson is
  inserted as a pending booking at the 60-minute price and answered 201.
\<close>

theorem unlisted_duration_is_booked:
  "createBooking studio clock (Returns None) (bookRequest 7 17) =
     (Response 201 ''Booking created successfully'',
      insertBooking studio 7 1763661600000 17 85 None)"
  by code_simp

subsection \<open>What a failed calendar push changes\<close>

lemma pushCreated_frame:
  "map withoutEventId (bookings (snd (pushCreated s lastID created))) =
     map withoutEventId (bookings s)"
  "payments (snd (pushCreated s lastID created)) = payments s"
  "bookings_seq (snd (pushCreated s lastID created)) = bookings_seq s"
  by (auto simp: pushCreated_def logSync_def withoutEventId_def split: ext.splits option.splits)

lemma createBooking_push_frame:
  "code (fst (createBooking s now o1 req)) = code (fst (createBooking s now o2 req))"
  "map withoutEventId (bookings (snd (createBooking s now o1 req))) =
     map withoutEventId (bookings (snd (createBooking s now o2 req)))"
  "payments (snd (createBooking s now o1 req)) = payments (snd (createBooking s now o2 req))"
  by (auto simp: createBooking_def createBookingHandler_def createBookingWrite_def Let_def
      case_prod_beta pushCreated_frame split: option.splits sum.splits)

lemma rescheduleBooking_push_frame:
  "code (fst (rescheduleBooking tz s o1 req)) = code (fst (rescheduleBooking tz s o2 req))"
  "bookings (snd (rescheduleBooking tz s o1 req)) = bookings (snd (rescheduleBooking tz s o2 req))"
  "payments (snd (rescheduleBooking tz s o1 req)) = payments (snd (rescheduleBooking tz s o2 req))"
  by (auto simp: rescheduleBooking_def rescheduleHandler_def Let_def case_prod_beta
      pushChanged_bookings pushChanged_payments split: option.splits)

lemma cancelBooking_push_frame:
  "code (fst (cancelBooking s now o1 req)) = code (fst (cancelBooking s now o2 req))"
  "bookings (snd (cancelBooking s now o1 req)) = bookings (snd (cancelBooking s now o2 req))"
  "payments (snd (cancelBooking s now o1 req)) = payments (snd (cancelBooking s now o2 req))"
  by (auto simp: cancelBooking_def cancelHandler_def Let_def case_prod_beta
      pushChanged_bookings pushChanged_payments split: option.splits sum.splits prod.splits)

lemma checkBlackoutDates_codes:
  "checkBlackoutDates s req = Some r \<Longrightarrow> code r = 400 \<or> code r = 500"
  by (auto simp: checkBlackoutDates_def Let_def split: option.splits if_splits)

lemma pushCreated_failure:
  assumes "calendar_sync_enabled s" and "createFailed created"
  shows "pushCreated s lastID created =
           (None, logSync s ''create'' lastID None ''error''
                    (Some (loggedError ''Failed to create Google Calendar event'' created)))"
  using assms
  by (auto simp: pushCreated_def createFailed_def loggedError_def split: ext.splits option.splits)

lemma pushCreated_success:
  assumes "calendar_sync_enabled s" and "gid \<noteq> []"
  shows "pushCreated s lastID (Returns (Some gid)) =
           (Some gid,
            logSync (s\<lparr>bookings :=
                       map (\<lambda>x. if id' x = lastID
                                 then x\<lparr>google_calendar_event_id := Some gid\<rparr> else x)
                         (bookings s)\<rparr>)
              ''create'' lastID (Some gid) ''success'' None)"
  using assms by (simp add: pushCreated_def)

lemma pushChanged_failure:
  assumes "calendar_sync_enabled s" and "hasEventId b" and "pushFailed pushed"
  shows "pushChanged s act failure b pushed =
           (False, logSync s act (id' b) (google_calendar_event_id b) ''error''
                     (Some (loggedError failure pushed)))"
  using assms
  by (auto simp: pushChanged_def pushFailed_def loggedError_def split: ext.splits)

lemma createBooking_accepted:
  assumes "code (fst (createBooking s now created req)) = 201"
    and "user req = Some uid" and "body_duration req = Some dur"
    and "new_Date (body_lesson_date req) = Some t"
  shows "createBooking s now created req =
           (let s1 = insertBooking s uid t dur (priceFor dur) (body_notes req);
                (googleEventId, s2) = pushCreated s1 (Suc (bookings_seq s)) created
            in (Response 201 (createdMessage googleEventId), s2))"
proof -
  have "checkBlackoutDates s req = None"
    using assms(1) checkBlackoutDates_codes [of s req]
    by (cases "checkBlackoutDates s req") (auto simp: createBooking_def)
  with assms show ?thesis
    by (auto simp: createBooking_def createBookingHandler_def createBookingCheck_def
        createBookingWrite_def Let_def insertBooking_def
        split: option.splits sum.splits if_splits prod.splits)
qed

lemma createBooking_push_failed:
  assumes "calendar_sync_enabled s" and "createFailed created"
    and "user req = Some uid" and "body_duration req = Some dur"
    and "new_Date (body_lesson_date req) = Some t"
    and "code (fst (createBooking s now created req)) = 201"
  shows "createBooking s now created req =
           (Response 201 ''Booking created successfully'',
            logSync (insertBooking s uid t dur (priceFor dur) (body_notes req))
              ''create'' (Suc (bookings_seq s)) None ''error''
              (Some (loggedError ''Failed to create Google Calendar event'' created)))"
proof -
  have e: "calendar_sync_enabled (insertBooking s uid t dur (priceFor dur) (body_notes req))"
    using assms(1) by (simp add: insertBooking_def)
  show ?thesis
    unfolding createBooking_accepted [OF assms(6,3,4,5)] Let_def
      pushCreated_failure [OF e assms(2)]
    by (simp add: createdMessage_def)
qed

lemma createBooking_push_succeeded:
  assumes "calendar_sync_enabled s" and "gid \<noteq> []"
    and "user req = Some uid" and "body_duration req = Some dur"
    and "new_Date (body_lesson_date req) = Some t"
    and "code (fst (createBooking s now (Returns (Some gid)) req)) = 201"
  shows "bookings (snd (createBooking s now (Returns (Some gid)) req)) =
           map (\<lambda>x. if id' x = Suc (bookings_seq s)
                     then x\<lparr>google_calendar_event_id := Some gid\<rparr> else x)
             (bookings (insertBooking s uid t dur (priceFor dur) (body_notes req)))"
proof -
  have e: "calendar_sync_enabled (insertBooking s uid t dur (priceFor dur) (body_notes req))"
    using assms(1) by (simp add: insertBooking_def)
  show ?thesis
    unfolding createBooking_accepted [OF assms(6,3,4,5)] Let_def
      pushCreated_success [OF e assms(2)]
    by (simp add: logSync_def)
qed

lemma rescheduleBooking_push_failed:
  assumes "calendar_sync_enabled s" and "pushFailed updated"
    and "user req = Some uid"
    and "find (\<lambda>x. id' x = params_id req \<and> user_id x = uid) (bookings s) = Some b"
    and "hasEventId b"
    and "new_Date (body_lesson_date req) = Some t"
    and "code (fst (rescheduleBooking tz s updated req)) = 200"
  shows "rescheduleBooking tz s updated req =
           (Response 200 ''Booking rescheduled successfully'',
            logSync (s\<lparr>bookings :=
                       map (\<lambda>x. if id' x = params_id req
                                 then rescheduleRow t (body_notes req) (lesson_date b) x
                                 else x) (bookings s)\<rparr>)
              ''update'' (id' b) (google_calendar_event_id b) ''error''
              (Some (loggedError ''Failed to update Google Calendar event'' updated)))"
proof -
  have g: "checkReschedulePolicy tz s req = None"
    using assms(7) checkReschedulePolicy_code [of tz s req]
    by (cases "checkReschedulePolicy tz s req") (auto simp: rescheduleBooking_def)
  have bl: "checkBlackoutDates s req = None"
    using assms(7) g checkBlackoutDates_code [of s req]
    by (cases "checkBlackoutDates s req") (auto simp: rescheduleBooking_def)
  have eq: "rescheduleBooking tz s updated req = rescheduleHandler tz s updated req"
    by (simp add: rescheduleBooking_def g bl)
  let ?s1 = "s\<lparr>bookings :=
               map (\<lambda>x. if id' x = params_id req
                         then rescheduleRow t (body_notes req) (lesson_date b) x
                         else x) (bookings s)\<rparr>"
  have e: "calendar_sync_enabled ?s1" using assms(1) by simp
  note pf = pushChanged_failure [OF e assms(5,2), of "''update''"
      "''Failed to update Google Calendar event''"]
  from assms(7) show ?thesis
    unfolding eq rescheduleHandler_def
    by (simp add: assms(3,4,6) Let_def pf changedMessage_def
        split: if_splits option.splits)
qed

lemma cancelBooking_push_failed:
  assumes "calendar_sync_enabled s" and "pushFailed deleted"
    and "user req = Some uid"
    and "find (\<lambda>x. id' x = params_id req \<and> user_id x = uid) (bookings s) = Some b"
    and "hasEventId b"
    and "fst (cancelBooking s now deleted req) = Response 200 ''Booking cancelled successfully''"
  shows "cancelBooking s now deleted req =
           (Response 200 ''Booking cancelled successfully'',
            logSync (s\<lparr>bookings :=
                       map (\<lambda>x. if id' x = params_id req
                                 then x\<lparr>status := Cancelled, cancelled_at := Some now\<rparr>
                                 else x) (bookings s)\<rparr>)
              ''delete'' (id' b) (google_calendar_event_id b) ''error''
              (Some (loggedError ''Failed to delete Google Calendar event'' deleted)))"
proof -
  let ?s1 = "s\<lparr>bookings :=
               map (\<lambda>x. if id' x = params_id req
                         then x\<lparr>status := Cancelled, cancelled_at := Some now\<rparr>
                         else x) (bookings s)\<rparr>"
  have e: "calendar_sync_enabled ?s1" using assms(1) by simp
  note pf = pushChanged_failure [OF e assms(5,2), of "''delete''"
      "''Failed to delete Google Calendar event''"]
  from assms(6) show ?thesis
    by (auto simp: cancelBooking_def checkCancellationPolicy_def
        enforceCancellationCharging_def cancelHandler_def Let_def assms(3,4) pf
        changedMessage_def split: option.splits if_splits)
qed

theorem calendar_failure_changes_row:
  "code (fst (createBooking studioSynced clock (Throws ''ETIMEDOUT'') (bookRequest 7 60))) = 201 \<and>
   code (fst (createBooking studioSynced clock (Returns (Some ''evt_1'')) (bookRequest 7 60))) = 201 \<and>
   map google_calendar_event_id
     (bookings (snd (createBooking studioSynced clock (Throws ''ETIMEDOUT'') (bookRequest 7 60)))) =
     [None, None, None] \<and>
   map google_calendar_event_id
     (bookings (snd (createBooking studioSynced clock (Returns (Some ''evt_1''))
                       (bookRequest 7 60)))) =
     [None, None, Some ''evt_1''] \<and>
   bookings (snd (createBooking studioSynced clock (Throws ''ETIMEDOUT'') (bookRequest 7 60))) \<noteq>
   bookings (snd (createBooking studioSynced clock (Returns (Some ''evt_1'')) (bookRequest 7 60)))"
  by code_simp

text \<open>
  C8 (amended). Whatever the calendar call does (returns an event, returns nothing, or
  throws), a create, reschedule or cancel request gets the same status code, and the same
  rows end in \<open>bookings\<close> and \<open>payments\<close>, after a create up to the external-event
  reference. When the push fails, by returning no event (\<open>null\<close>, \<open>false\<close>) or by
  throwing, the request is answered as a success without the calendar suffix, the booking
  row is inserted, moved or cancelled as the request asked, and exactly one \<open>error\<close> row
  is added to the sync log, with the handler's message or the message thrown. After a
  create the new row has no external-event reference; had the push returned an event, the
  rows would be the same with that reference set on the new row.
\<close>

theorem calendar_failure_is_local:
  "(code (fst (createBooking s now o1 req)) = code (fst (createBooking s now o2 req)) \<and>
    map withoutEventId (bookings (snd (createBooking s now o1 req))) =
      map withoutEventId (bookings (snd (createBooking s now o2 req))) \<and>
    payments (snd (createBooking s now o1 req)) = payments (snd (createBooking s now o2 req))) \<and>
   (code (fst (rescheduleBooking tz s p1 req)) = code (fst (rescheduleBooking tz s p2 req)) \<and>
    bookings (snd (rescheduleBooking tz s p1 req)) =
      bookings (snd (rescheduleBooking tz s p2 req)) \<and>
    payments (snd (rescheduleBooking tz s p1 req)) =
      payments (snd (rescheduleBooking tz s p2 req))) \<and>
   (code (fst (cancelBooking s now p1 req)) = code (fst (cancelBooking s now p2 req)) \<and>
    bookings (snd (cancelBooking s now p1 req)) = bookings (snd (cancelBooking s now p2 req)) \<and>
    payments (snd (cancelBooking s now p1 req)) = payments (snd (cancelBooking s now p2 req))) \<and>
   (\<forall>uid dur t.
      calendar_sync_enabled s \<longrightarrow> createFailed o1 \<longrightarrow>
      user req = Some uid \<longrightarrow> body_duration req = Some dur \<longrightarrow>
      new_Date (body_lesson_date req) = Some t \<longrightarrow>
      code (fst (createBooking s now o1 req)) = 201 \<longrightarrow>
      fst (createBooking s now o1 req) = Response 201 ''Booking created successfully'' \<and>
      bookings (snd (createBooking s now o1 req)) =
        bookings s @
        [\<lparr>id' = Suc (bookings_seq s), user_id = uid, lesson_date = t, duration = dur,
          price = priceFor dur, status = Pending, notes' = body_notes req,
          reschedule_count = 0, original_date = None, cancellation_reason = None,
          cancelled_at = None, google_calendar_event_id = None\<rparr>] \<and>
      calendar_sync_log (snd (createBooking s now o1 req)) =
        calendar_sync_log s @
        [\<lparr>action = ''create'', log_booking_id = Suc (bookings_seq s), google_event_id = None,
          log_status = ''error'',
          error_message = Some (loggedError ''Failed to create Google Calendar event'' o1)\<rparr>] \<and>
      (\<forall>gid. gid \<noteq> [] \<longrightarrow>
         bookings (snd (createBooking s now (Returns (Some gid)) req)) =
           map (\<lambda>x. if id' x = Suc (bookings_seq s)
                     then x\<lparr>google_calendar_event_id := Some gid\<rparr> else x)
             (bookings (snd (createBooking s now o1 req))))) \<and>
   (\<forall>uid b.
      calendar_sync_enabled s \<longrightarrow> pushFailed p1 \<longrightarrow> user req = Some uid \<longrightarrow>
      find (\<lambda>x. id' x = params_id req \<and> user_id x = uid) (bookings s) = Some b \<longrightarrow>
      hasEventId b \<longrightarrow>
      (\<forall>t. new_Date (body_lesson_date req) = Some t \<longrightarrow>
         code (fst (rescheduleBooking tz s p1 req)) = 200 \<longrightarrow>
         fst (rescheduleBooking tz s p1 req) =
           Response 200 ''Booking rescheduled successfully'' \<and>
         bookings (snd (rescheduleBooking tz s p1 req)) =
           map (\<lambda>x. if id' x = params_id req
                     then rescheduleRow t (body_notes req) (lesson_date b) x else x)
             (bookings s) \<and>
         calendar_sync_log (snd (rescheduleBooking tz s p1 req)) =
           calendar_sync_log s @
           [\<lparr>action = ''update'', log_booking_id = id' b,
             google_event_id = google_calendar_event_id b, log_status = ''error'',
             error_message =
               Some (loggedError ''Failed to update Google Calendar event'' p1)\<rparr>]) \<and>
      (fst (cancelBooking s now p1 req) = Response 200 ''Booking cancelled successfully'' \<longrightarrow>
       bookings (snd (cancelBooking s now p1 req)) =
         map (\<lambda>x. if id' x = params_id req
                   then x\<lparr>status := Cancelled, cancelled_at := Some now\<rparr> else x)
           (bookings s) \<and>
       calendar_sync_log (snd (cancelBooking s now p1 req)) =
         calendar_sync_log s @
         [\<lparr>action = ''delete'', log_booking_id = id' b,
           google_event_id = google_calendar_event_id b, log_status = ''error'',
           error_message =
             Some (loggedError ''Failed to delete Google Calendar event'' p1)\<rparr>]))"
proof (intro conjI allI impI)
  fix uid dur t
  assume a: "calendar_sync_enabled s" "createFailed o1" "user req = Some uid"
    "body_duration req = Some dur" "new_Date (body_lesson_date req) = Some t"
    "code (fst (createBooking s now o1 req)) = 201"
  note r = createBooking_push_failed [OF a]
  show "fst (createBooking s now o1 req) = Response 201 ''Booking created successfully''"
    unfolding r by simp
  show "bookings (snd (createBooking s now o1 req)) =
        bookings s @
        [\<lparr>id' = Suc (bookings_seq s), user_id = uid, lesson_date = t, duration = dur,
          price = priceFor dur, status = Pending, notes' = body_notes req,
          reschedule_count = 0, original_date = None, cancellation_reason = None,
          cancelled_at = None, google_calendar_event_id = None\<rparr>]"
    unfolding r by (simp add: logSync_def insertBooking_def)
  show "calendar_sync_log (snd (createBooking s now o1 req)) =
        calendar_sync_log s @
        [\<lparr>action = ''create'', log_booking_id = Suc (bookings_seq s), google_event_id = None,
          log_status = ''error'',
          error_message = Some (loggedError ''Failed to create Google Calendar event'' o1)\<rparr>]"
    unfolding r by (simp add: logSync_def insertBooking_def)
next
  fix uid dur t and gid :: string
  assume a: "calendar_sync_enabled s" "createFailed o1" "user req = Some uid"
    "body_duration req = Some dur" "new_Date (body_lesson_date req) = Some t"
    "code (fst (createBooking s now o1 req)) = 201"
    and g: "gid \<noteq> []"
  have "code (fst (createBooking s now (Returns (Some gid)) req)) = 201"
    using a(6) createBooking_push_frame(1) [of s now o1 req "Returns (Some gid)"] by simp
  from createBooking_push_succeeded [OF a(1) g a(3,4,5) this]
  show "bookings (snd (createBooking s now (Returns (Some gid)) req)) =
           map (\<lambda>x. if id' x = Suc (bookings_seq s)
                     then x\<lparr>google_calendar_event_id := Some gid\<rparr> else x)
             (bookings (snd (createBooking s now o1 req)))"
    unfolding createBooking_push_failed [OF a] by (simp add: logSync_def)
next
  fix uid b t
  assume a: "calendar_sync_enabled s" "pushFailed p1" "user req = Some uid"
    "find (\<lambda>x. id' x = params_id req \<and> user_id x = uid) (bookings s) = Some b"
    "hasEventId b" "new_Date (body_lesson_date req) = Some t"
    "code (fst (rescheduleBooking tz s p1 req)) = 200"
  note r = rescheduleBooking_push_failed [OF a]
  show "fst (rescheduleBooking tz s p1 req) = Response 200 ''Booking rescheduled successfully''"
    unfolding r by simp
  show "bookings (snd (rescheduleBooking tz s p1 req)) =
           map (\<lambda>x. if id' x = params_id req
                     then rescheduleRow t (body_notes req) (lesson_date b) x else x)
             (bookings s)"
    unfolding r by (simp add: logSync_def)
  show "calendar_sync_log (snd (rescheduleBooking tz s p1 req)) =
           calendar_sync_log s @
           [\<lparr>action = ''update'', log_booking_id = id' b,
             google_event_id = google_calendar_event_id b, log_status = ''error'',
             error_message =
               Some (loggedError ''Failed to update Google Calendar event'' p1)\<rparr>]"
    unfolding r by (simp add: logSync_def)
next
  fix uid b
  assume a: "calendar_sync_enabled s" "pushFailed p1" "user req = Some uid"
    "find (\<lambda>x. id' x = params_id req \<and> user_id x = uid) (bookings s) = Some b"
    "hasEventId b"
    "fst (cancelBooking s now p1 req) = Response 200 ''Booking cancelled successfully''"
  note r = cancelBooking_push_failed [OF a]
  show "bookings (snd (cancelBooking s now p1 req)) =
         map (\<lambda>x. if id' x = params_id req
                   then x\<lparr>status := Cancelled, cancelled_at := Some now\<rparr> else x)
           (bookings s)"
    unfolding r by (simp add: logSync_def)
  show "calendar_sync_log (snd (cancelBooking s now p1 req)) =
         calendar_sync_log s @
         [\<lparr>action = ''delete'', log_booking_id = id' b,
           google_event_id = google_calendar_event_id b, log_status = ''error'',
           error_message =
             Some (loggedError ''Failed to delete Google Calendar event'' p1)\<rparr>]"
    unfolding r by (simp add: logSync_def)
qed (rule createBooking_push_frame rescheduleBooking_push_frame cancelBooking_push_frame)+

lemma studioLinked_facts:
  "calendar_sync_enabled studioSynced"
  "createFailed (Returns None)"
  "user (bookRequest 7 60) = Some 7"
  "body_duration (bookRequest 7 60) = Some 60"
  "new_Date (body_lesson_date (bookRequest 7 60)) = Some 1763661600000"
  "code (fst (createBooking studioSynced clock (Returns None) (bookRequest 7 60))) = 201"
  "calendar_sync_enabled studioLinked"
  "pushFailed (Returns False)"
  "pushFailed (Throws ''ETIMEDOUT'')"
  "user linkedRequest = Some 7"
  "find (\<lambda>x. id' x = params_id linkedRequest \<and> user_id x = 7) (bookings studioLinked) =
     Some lesson3"
  "hasEventId lesson3"
  "new_Date (body_lesson_date linkedRequest) = Some 1763661600000"
  "code (fst (rescheduleBooking pacific studioLinked (Returns False) linkedRequest)) = 200"
  "fst (cancelBooking studioLinked clock (Throws ''ETIMEDOUT'') linkedRequest) =
     Response 200 ''Booking cancelled successfully''"
  by code_simp+

lemma studioLinked_values:
  "bookings studioSynced @
     [\<lparr>id' = Suc (bookings_seq studioSynced), user_id = 7, lesson_date = 1763661600000,
       duration = 60, price = priceFor 60, status = Pending,
       notes' = body_notes (bookRequest 7 60), reschedule_count = 0, original_date = None,
       cancellation_reason = None, cancelled_at = None, google_calendar_event_id = None\<rparr>] =
   [lesson1, lesson2,
    \<lparr>id' = 3, user_id = 7, lesson_date = 1763661600000, duration = 60, price = 85,
      status = Pending, notes' = None, reschedule_count = 0, original_date = None,
      cancellation_reason = None, cancelled_at = None, google_calendar_event_id = None\<rparr>]"
  "calendar_sync_log studioSynced @
     [\<lparr>action = ''create'', log_booking_id = Suc (bookings_seq studioSynced),
       google_event_id = None, log_status = ''error'',
       error_message =
         Some (loggedError ''Failed to create Google Calendar event'' (Returns None))\<rparr>] =
   [\<lparr>action = ''create'', log_booking_id = 3, google_event_id = None, log_status = ''error'',
      error_message = Some ''Failed to create Google Calendar event''\<rparr>]"
  "map (\<lambda>x. if id' x = params_id linkedRequest
             then rescheduleRow 1763661600000 (body_notes linkedRequest) (lesson_date lesson3) x
             else x) (bookings studioLinked) =
   [lesson1, lesson2,
    lesson3\<lparr>lesson_date := 1763661600000, reschedule_count := 1,
            original_date := Some 1763056800000\<rparr>]"
  "calendar_sync_log studioLinked @
     [\<lparr>action = ''update'', log_booking_id = id' lesson3,
       google_event_id = google_calendar_event_id lesson3, log_status = ''error'',
       error_message =
         Some (loggedError ''Failed to update Google Calendar event'' (Returns False))\<rparr>] =
   [\<lparr>action = ''update'', log_booking_id = 3, google_event_id = Some ''evt_3'',
      log_status = ''error'',
      error_message = Some ''Failed to update Google Calendar event''\<rparr>]"
  "map (\<lambda>x. if id' x = params_id linkedRequest
             then x\<lparr>status := Cancelled, cancelled_at := Some clock\<rparr> else x)
     (bookings studioLinked) =
   [lesson1, lesson2, lesson3\<lparr>status := Cancelled, cancelled_at := Some clock\<rparr>]"
  "calendar_sync_log studioLinked @
     [\<lparr>action = ''delete'', log_booking_id = id' lesson3,
       google_event_id = google_calendar_event_id lesson3, log_status = ''error'',
       error_message =
         Some (loggedError ''Failed to delete Google Calendar event''
                 (Throws ''ETIMEDOUT''))\<rparr>] =
   [\<lparr>action = ''delete'', log_booking_id = 3, google_event_id = Some ''evt_3'',
      log_status = ''error'', error_message = Some ''ETIMEDOUT''\<rparr>]"
  by code_simp+

theorem calendar_failure_is_local_witness:
  "(fst (createBooking studioSynced clock (Returns None) (bookRequest 7 60)) =
      Response 201 ''Booking created successfully'' \<and>
    bookings (snd (createBooking studioSynced clock (Returns None) (bookRequest 7 60))) =
      [lesson1, lesson2,
       \<lparr>id' = 3, user_id = 7, lesson_date = 1763661600000, duration = 60, price = 85,
         status = Pending, notes' = None, reschedule_count = 0, original_date = None,
         cancellation_reason = None, cancelled_at = None, google_calendar_event_id = None\<rparr>] \<and>
    calendar_sync_log (snd (createBooking studioSynced clock (Returns None) (bookRequest 7 60))) =
      [\<lparr>action = ''create'', log_booking_id = 3, google_event_id = None, log_status = ''error'',
         error_message = Some ''Failed to create Google Calendar event''\<rparr>]) \<and>
   (fst (rescheduleBooking pacific studioLinked (Returns False) linkedRequest) =
      Response 200 ''Booking rescheduled successfully'' \<and>
    bookings (snd (rescheduleBooking pacific studioLinked (Returns False) linkedRequest)) =
      [lesson1, lesson2,
       lesson3\<lparr>lesson_date := 1763661600000, reschedule_count := 1,
               original_date := Some 1763056800000\<rparr>] \<and>
    calendar_sync_log (snd (rescheduleBooking pacific studioLinked (Returns False)
                             linkedRequest)) =
      [\<lparr>action = ''update'', log_booking_id = 3, google_event_id = Some ''evt_3'',
         log_status = ''error'',
         error_message = Some ''Failed to update Google Calendar event''\<rparr>]) \<and>
   (bookings (snd (cancelBooking studioLinked clock (Throws ''ETIMEDOUT'') linkedRequest)) =
      [lesson1, lesson2, lesson3\<lparr>status := Cancelled, cancelled_at := Some clock\<rparr>] \<and>
    calendar_sync_log (snd (cancelBooking studioLinked clock (Throws ''ETIMEDOUT'')
                             linkedRequest)) =
      [\<lparr>action = ''delete'', log_booking_id = 3, google_event_id = Some ''evt_3'',
         log_status = ''error'', error_message = Some ''ETIMEDOUT''\<rparr>])"
proof -
  note f = studioLinked_facts
  note v = studioLinked_values
  note cr = calendar_failure_is_local [of studioSynced clock "Returns None" "bookRequest 7 60",
      THEN conjunct2, THEN conjunct2, THEN conjunct2, THEN conjunct1, rule_format,
      OF f(1-6)]
  note a1 = cr [THEN conjunct1]
  note a2 = cr [THEN conjunct2, THEN conjunct1, unfolded v]
  note a3 = cr [THEN conjunct2, THEN conjunct2, THEN conjunct1, unfolded v]
  note rs = calendar_failure_is_local [of studioLinked clock _ linkedRequest _ pacific
      "Returns False",
      THEN conjunct2, THEN conjunct2, THEN conjunct2, THEN conjunct2, rule_format,
      OF f(7,8,10-12), THEN conjunct1, rule_format, OF f(13,14)]
  note b1 = rs [THEN conjunct1]
  note b2 = rs [THEN conjunct2, THEN conjunct1, unfolded v]
  note b3 = rs [THEN conjunct2, THEN conjunct2, unfolded v]
  note cn = calendar_failure_is_local [of studioLinked clock _ linkedRequest _ pacific
      "Throws ''ETIMEDOUT''",
      THEN conjunct2, THEN conjunct2, THEN conjunct2, THEN conjunct2, rule_format,
      OF f(7,9,10-12), THEN conjunct2, rule_format, OF f(15)]
  note c1 = cn [THEN conjunct1, unfolded v]
  note c2 = cn [THEN conjunct2, unfolded v]
  show ?thesis
    using a1 a2 a3 b1 b2 b3 c1 c2 by (intro conjI)
qed

subsection \<open>The day arithmetic agrees with the calendar\<close>

text \<open>
  \<open>civil_from_days\<close> inverts \<open>days_from_civil\<close> on every date of the calendar, and the
  first days of consecutive months are a month's length apart.
\<close>

lemma yoe_recover:
  fixes yoe doy doe :: int
  assumes y: "0 \<le> yoe" "yoe \<le> 399" and d: "0 \<le> doy" "doy \<le> 364"
    and doe: "doe = yoe * 365 + yoe div 4 - yoe div 100 + doy"
  shows "(doe - doe div 1460 + doe div 36524 - doe div 146096) div 365 = yoe"
    and "0 \<le> doe" and "doe < 146097"
proof -
  define c where "c = yoe div 100"
  define q where "q = (yoe mod 100) div 4"
  define r where "r = yoe mod 4"
  have c: "0 \<le> c" "c \<le> 3" using y unfolding c_def by auto
  have q: "0 \<le> q" "q \<le> 24" unfolding q_def by auto
  have r: "0 \<le> r" "r \<le> 3" unfolding r_def by auto
  have "yoe mod 100 mod 4 = yoe mod 4"
    by (rule mod_mod_cancel) simp
  then have "yoe mod 100 = 4 * q + r"
    unfolding q_def r_def using mult_div_mod_eq [of 4 "yoe mod 100"] by simp
  then have yoe: "yoe = 100 * c + 4 * q + r"
    unfolding c_def using mult_div_mod_eq [of 100 yoe] by simp
  have y4: "yoe div 4 = 25 * c + q"
    by (rule int_div_pos_eq [of _ _ _ r]) (use yoe r in auto)
  have y100: "yoe div 100 = c" by (simp add: c_def)
  have doe': "doe = 36524 * c + 1461 * q + 365 * r + doy"
    using doe yoe unfolding y4 y100 by linarith
  show "0 \<le> doe" using doe' c q r d by simp
  show "doe < 146097" using doe' c q r d by simp
  have d1: "doe div 146096 = 0"
    using doe' c q r d by simp
  have d2: "doe div 36524 = c"
    by (rule int_div_pos_eq [of _ _ _ "1461 * q + 365 * r + doy"]) (use doe' q r d in auto)
  define e where "e = 24 * c + q + 365 * r + doy"
  have e: "0 \<le> e" "e \<le> 1555" using c q r d unfolding e_def by auto
  have doe'': "doe = 1460 * (25 * c + q) + e"
    using doe' unfolding e_def by simp
  show "(doe - doe div 1460 + doe div 36524 - doe div 146096) div 365 = yoe"
  proof (cases "e < 1460")
    case True
    have d3: "doe div 1460 = 25 * c + q"
      by (rule int_div_pos_eq [of _ _ _ e]) (use doe'' e True in auto)
    have "doe - doe div 1460 + doe div 36524 - doe div 146096 = 365 * yoe + doy"
      using doe' yoe unfolding d1 d2 d3 by linarith
    moreover have "(365 * yoe + doy) div 365 = yoe"
      by (rule int_div_pos_eq [of _ _ _ doy]) (use d in auto)
    ultimately show ?thesis by simp
  next
    case False
    have d3: "doe div 1460 = 25 * c + q + 1"
      by (rule int_div_pos_eq [of _ _ _ "e - 1460"]) (use doe'' e False in auto)
    have "1 \<le> doy" using False c q r d unfolding e_def by linarith
    have "doe - doe div 1460 + doe div 36524 - doe div 146096 = 365 * yoe + (doy - 1)"
      using doe' yoe unfolding d1 d2 d3 by linarith
    moreover have "(365 * yoe + (doy - 1)) div 365 = yoe"
      by (rule int_div_pos_eq [of _ _ _ "doy - 1"]) (use d \<open>1 \<le> doy\<close> in auto)
    ultimately show ?thesis by simp
  qed
qed

lemma yoe_recover_leap:
  fixes yoe doe :: int
  assumes y: "0 \<le> yoe" "yoe \<le> 399"
    and leap: "yoe mod 4 = 3" "yoe mod 100 \<noteq> 99 \<or> yoe = 399"
    and doe: "doe = yoe * 365 + yoe div 4 - yoe div 100 + 365"
  shows "(doe - doe div 1460 + doe div 36524 - doe div 146096) div 365 = yoe"
    and "0 \<le> doe" and "doe < 146097"
proof -
  define c where "c = yoe div 100"
  define q where "q = (yoe mod 100) div 4"
  have c: "0 \<le> c" "c \<le> 3" using y unfolding c_def by auto
  have q: "0 \<le> q" "q \<le> 24" unfolding q_def by auto
  have "yoe mod 100 mod 4 = yoe mod 4"
    by (rule mod_mod_cancel) simp
  then have m100: "yoe mod 100 = 4 * q + 3"
    unfolding q_def using mult_div_mod_eq [of 4 "yoe mod 100"] leap(1) by simp
  then have yoe: "yoe = 100 * c + 4 * q + 3"
    unfolding c_def using mult_div_mod_eq [of 100 yoe] by simp
  have y4: "yoe div 4 = 25 * c + q"
    by (rule int_div_pos_eq [of _ _ _ 3]) (use yoe in auto)
  have y100: "yoe div 100 = c" by (simp add: c_def)
  have doe': "doe = 36524 * c + 1461 * q + 1460"
    using doe yoe unfolding y4 y100 by linarith
  show "0 \<le> doe" using doe' c q by simp
  show "doe < 146097" using doe' c q by simp
  show "(doe - doe div 1460 + doe div 36524 - doe div 146096) div 365 = yoe"
  proof (cases "yoe = 399")
    case True
    then have "doe = 146096" using doe by simp
    with True show ?thesis by simp
  next
    case False
    with leap(2) m100 have "q \<noteq> 24" by auto
    with q have q': "q \<le> 23" by simp
    have d1: "doe div 146096 = 0"
      using doe' c q q' by simp
    have d2: "doe div 36524 = c"
      by (rule int_div_pos_eq [of _ _ _ "1461 * q + 1460"]) (use doe' q q' in auto)
    have d3: "doe div 1460 = 25 * c + q + 1"
      by (rule int_div_pos_eq [of _ _ _ "24 * c + q"]) (use doe' c q in auto)
    have "doe - doe div 1460 + doe div 36524 - doe div 146096 = 365 * yoe + 364"
      using doe' yoe unfolding d1 d2 d3 by linarith
    moreover have "(365 * yoe + 364) div 365 = yoe"
      by (rule int_div_pos_eq [of _ _ _ 364]) auto
    ultimately show ?thesis by simp
  qed
qed

lemma month_recover_long:
  fixes mp d doy :: int
  assumes "0 \<le> mp" "mp \<le> 11" "1 \<le> d" "d \<le> 30 \<or> d = 31 \<and> 2 \<le> (153 * mp + 2) mod 5"
    and doy: "doy = (153 * mp + 2) div 5 + d - 1"
  shows "(5 * doy + 2) div 153 = mp" and "0 \<le> doy"
proof -
  define t where "t = (153 * mp + 2) div 5"
  define p where "p = (153 * mp + 2) mod 5"
  have tp: "5 * t + p = 153 * mp + 2"
    unfolding t_def p_def by (rule mult_div_mod_eq)
  have p: "0 \<le> p" "p \<le> 4" unfolding p_def by auto
  have doy': "doy = t + d - 1" using doy t_def by simp
  have d: "5 * d \<le> 153 + p" using assms(4) p unfolding p_def by auto
  show "(5 * doy + 2) div 153 = mp"
    by (rule int_div_pos_eq [of _ _ _ "5 * d - 1 - p"]) (use tp p doy' assms(3) d in auto)
  show "0 \<le> doy" using tp p doy' assms by linarith
qed

lemma leap_year_of_era:
  fixes y :: int
  assumes "isLeapYear y"
  shows "(y - 1) mod 400 mod 4 = 3"
    and "(y - 1) mod 400 mod 100 \<noteq> 99 \<or> (y - 1) mod 400 = 399"
proof -
  have a: "(y - 1) mod 400 mod 4 = (y - 1) mod 4" by (rule mod_mod_cancel) simp
  have b: "(y - 1) mod 400 mod 100 = (y - 1) mod 100" by (rule mod_mod_cancel) simp
  from assms have y4: "y mod 4 = 0" and y100: "y mod 100 \<noteq> 0 \<or> y mod 400 = 0"
    unfolding isLeapYear_def by auto
  have "(y - 1) mod 4 = 3"
    by (rule int_mod_pos_eq [of _ _ "y div 4 - 1"])
       (use y4 mult_div_mod_eq [of 4 y] in auto)
  then show "(y - 1) mod 400 mod 4 = 3" unfolding a .
  from y100 show "(y - 1) mod 400 mod 100 \<noteq> 99 \<or> (y - 1) mod 400 = 399"
  proof
    assume "y mod 100 \<noteq> 0"
    have "(y - 1) mod 100 = y mod 100 - 1"
      by (rule int_mod_pos_eq [of _ _ "y div 100"])
         (use \<open>y mod 100 \<noteq> 0\<close> mult_div_mod_eq [of 100 y]
            pos_mod_sign [of 100 y] pos_mod_bound [of 100 y] in auto)
    moreover have "y mod 100 < 100" by simp
    ultimately have "(y - 1) mod 100 \<noteq> 99" by linarith
    then show ?thesis unfolding b by simp
  next
    assume "y mod 400 = 0"
    then have "(y - 1) mod 400 = 399"
      using mult_div_mod_eq [of 400 y]
      by (intro int_mod_pos_eq [of _ _ "y div 400 - 1"]) auto
    then show ?thesis by simp
  qed
qed

lemma civil_roundtrip_valid:
  fixes y m d :: int
  assumes m: "1 \<le> m" "m \<le> 12" and d: "1 \<le> d" "d \<le> daysInMonth y m"
  shows "civil_from_days (days_from_civil y m d) = (y, m, d)"
proof -
  define y1 where "y1 = (if m \<le> 2 then y - 1 else y)"
  define era where "era = y1 div 400"
  define yoe where "yoe = y1 - era * 400"
  define mp where "mp = (if m > 2 then m - 3 else m + 9)"
  define doy where "doy = (153 * mp + 2) div 5 + d - 1"
  define doe where "doe = yoe * 365 + yoe div 4 - yoe div 100 + doy"
  have dfc: "days_from_civil y m d = era * 146097 + doe - 719468"
    by (simp add: days_from_civil_def Let_def y1_def era_def yoe_def mp_def doy_def doe_def)
  have yoe_mod: "yoe = y1 mod 400"
    unfolding yoe_def era_def by (simp add: minus_div_mult_eq_mod)
  then have yoe: "0 \<le> yoe" "yoe \<le> 399" by auto
  have mp: "0 \<le> mp" "mp \<le> 11" using m unfolding mp_def by auto
  from m have mcases: "m = 1 \<or> m = 2 \<or> m = 3 \<or> m = 4 \<or> m = 5 \<or> m = 6 \<or> m = 7 \<or>
      m = 8 \<or> m = 9 \<or> m = 10 \<or> m = 11 \<or> m = 12"
    by presburger
  have long: "d \<le> 30 \<or> d = 31 \<and> 2 \<le> (153 * mp + 2) mod 5"
    using mcases d(2)
    apply (elim disjE)
    apply (simp_all add: mp_def daysInMonth_def split: if_splits)
    apply linarith+
    done
  have doyb: "doy \<le> 364 \<or> doy = 365 \<and> m = 2 \<and> isLeapYear y"
    using mcases d(2)
    apply (elim disjE)
    apply (simp_all add: doy_def mp_def daysInMonth_def split: if_splits)
    apply linarith+
    done
  note mr = month_recover_long [OF mp d(1) long doy_def]
  have yr: "(doe - doe div 1460 + doe div 36524 - doe div 146096) div 365 = yoe
      \<and> 0 \<le> doe \<and> doe < 146097"
  proof (cases "doy \<le> 364")
    case True
    from yoe_recover [OF yoe mr(2) True doe_def] show ?thesis by simp
  next
    case False
    with doyb have l: "doy = 365" "m = 2" "isLeapYear y" by auto
    from l(2) have "yoe = (y - 1) mod 400" unfolding yoe_mod y1_def by simp
    with leap_year_of_era [OF l(3)] have "yoe mod 4 = 3" "yoe mod 100 \<noteq> 99 \<or> yoe = 399"
      by simp_all
    from yoe_recover_leap [OF yoe this doe_def [unfolded l(1)]] show ?thesis by simp
  qed
  have e: "(era * 146097 + doe) div 146097 = era"
    by (rule int_div_pos_eq [of _ _ _ doe]) (use yr in auto)
  have mback: "(if mp < 10 then mp + 3 else mp - 9) = m"
    using m unfolding mp_def by auto
  have dd: "doy - (153 * mp + 2) div 5 + 1 = d"
    unfolding doy_def by simp
  have yy: "yoe + era * 400 + (if m \<le> 2 then 1 else 0) = y"
    unfolding yoe_def y1_def by simp
  have doy': "doe - (365 * yoe + yoe div 4 - yoe div 100) = doy"
    unfolding doe_def by simp
  have z1: "days_from_civil y m d + 719468 = era * 146097 + doe"
    using dfc by simp
  have s1: "era * 146097 + doe - era * 146097 = doe"
    by simp
  have yr1: "(doe - doe div 1460 + doe div 36524 - doe div 146096) div 365 = yoe"
    using yr by simp
  show ?thesis
    by (simp only: civil_from_days_def Let_def z1 e s1 yr1 doy' mr(1) mback dd yy)
qed

lemma days_from_civil_closed:
  "days_from_civil y m d =
     (let y1 = (if m \<le> 2 then y - 1 else y)
      in 365 * y1 + y1 div 4 - y1 div 100 + y1 div 400 +
         (153 * (if m > 2 then m - 3 else m + 9) + 2) div 5 + d - 1 - 719468)"
proof -
  define y1 where "y1 = (if m \<le> 2 then y - 1 else y)"
  define era where "era = y1 div 400"
  define yoe where "yoe = y1 mod 400"
  have y1: "y1 = 400 * era + yoe"
    unfolding era_def yoe_def by simp
  have yoe: "0 \<le> yoe" "yoe < 400" unfolding yoe_def by auto
  have a: "y1 div 4 = 100 * era + yoe div 4"
    by (rule int_div_pos_eq [of _ _ _ "yoe mod 4"])
       (use y1 mult_div_mod_eq [of 4 yoe] in auto)
  have b: "y1 div 100 = 4 * era + yoe div 100"
    by (rule int_div_pos_eq [of _ _ _ "yoe mod 100"])
       (use y1 mult_div_mod_eq [of 100 yoe] in auto)
  have c: "y1 - era * 400 = yoe"
    using y1 by simp
  have "days_from_civil y m d =
          era * 146097 + (yoe * 365 + yoe div 4 - yoe div 100 +
            ((153 * (if m > 2 then m - 3 else m + 9) + 2) div 5 + d - 1)) - 719468"
    unfolding days_from_civil_def Let_def y1_def [symmetric] era_def [symmetric] c
    by simp
  also have "\<dots> = 365 * y1 + y1 div 4 - y1 div 100 + era +
          (153 * (if m > 2 then m - 3 else m + 9) + 2) div 5 + d - 1 - 719468"
    unfolding a b using y1 by linarith
  finally show ?thesis
    unfolding Let_def y1_def [symmetric] era_def [symmetric] .
qed

lemma div_step:
  fixes y n :: int
  assumes "0 < n"
  shows "y div n - (y - 1) div n = (if y mod n = 0 then 1 else 0)"
proof (cases "y mod n = 0")
  case True
  have "(y - 1) div n = y div n - 1"
    by (rule int_div_pos_eq [of _ _ _ "n - 1"])
       (use True assms mult_div_mod_eq [of n y] in \<open>auto simp: algebra_simps\<close>)
  with True show ?thesis by simp
next
  case False
  have "0 \<le> y mod n" "y mod n < n" using assms by auto
  with False have "1 \<le> y mod n" by linarith
  have "(y - 1) div n = y div n"
    by (rule int_div_pos_eq [of _ _ _ "y mod n - 1"])
       (use \<open>1 \<le> y mod n\<close> \<open>y mod n < n\<close> mult_div_mod_eq [of n y] in \<open>auto simp: algebra_simps\<close>)
  with False show ?thesis by simp
qed

lemma leap_step:
  "y div 4 - (y - 1) div 4 - (y div 100 - (y - 1) div 100) + (y div 400 - (y - 1) div 400) =
     (if isLeapYear y then 1 else 0)"
proof -
  have "y mod 100 mod 4 = y mod 4" by (rule mod_mod_cancel) simp
  then have a: "y mod 100 = 0 \<Longrightarrow> y mod 4 = 0" by simp
  have "y mod 400 mod 100 = y mod 100" by (rule mod_mod_cancel) simp
  then have b: "y mod 400 = 0 \<Longrightarrow> y mod 100 = 0" by simp
  have s4: "y div 4 - (y - 1) div 4 = (if y mod 4 = 0 then 1 else 0)"
    by (rule div_step) simp
  have s100: "y div 100 - (y - 1) div 100 = (if y mod 100 = 0 then 1 else 0)"
    by (rule div_step) simp
  have s400: "y div 400 - (y - 1) div 400 = (if y mod 400 = 0 then 1 else 0)"
    by (rule div_step) simp
  show ?thesis
  proof (cases "y mod 400 = 0")
    case True
    with a b show ?thesis unfolding s4 s100 s400 isLeapYear_def by simp
  next
    case n400: False
    show ?thesis
    proof (cases "y mod 100 = 0")
      case True
      with a n400 show ?thesis unfolding s4 s100 s400 isLeapYear_def by simp
    next
      case False
      with n400 show ?thesis unfolding s4 s100 s400 isLeapYear_def by simp
    qed
  qed
qed

lemma yearDays_step: "yearDays y = yearDays (y - 1) + 365 + (if isLeapYear y then 1 else 0)"
proof (cases "isLeapYear y")
  case True
  with leap_step [of y] have
    "y div 4 - (y - 1) div 4 - (y div 100 - (y - 1) div 100) + (y div 400 - (y - 1) div 400) = 1"
    by simp
  with True show ?thesis unfolding yearDays_def by simp
next
  case False
  with leap_step [of y] have
    "y div 4 - (y - 1) div 4 - (y div 100 - (y - 1) div 100) + (y div 400 - (y - 1) div 400) = 0"
    by simp
  with False show ?thesis unfolding yearDays_def by simp
qed

lemma first_of_month_table:
  "days_from_civil y 1 1 = yearDays (y - 1) + 306 - 719468"
  "days_from_civil y 2 1 = yearDays (y - 1) + 337 - 719468"
  "days_from_civil y 3 1 = yearDays y + 0 - 719468"
  "days_from_civil y 4 1 = yearDays y + 31 - 719468"
  "days_from_civil y 5 1 = yearDays y + 61 - 719468"
  "days_from_civil y 6 1 = yearDays y + 92 - 719468"
  "days_from_civil y 7 1 = yearDays y + 122 - 719468"
  "days_from_civil y 8 1 = yearDays y + 153 - 719468"
  "days_from_civil y 9 1 = yearDays y + 184 - 719468"
  "days_from_civil y 10 1 = yearDays y + 214 - 719468"
  "days_from_civil y 11 1 = yearDays y + 245 - 719468"
  "days_from_civil y 12 1 = yearDays y + 275 - 719468"
  unfolding days_from_civil_closed yearDays_def Let_def by simp_all

lemma next_first:
  fixes Y M :: int
  assumes "1 \<le> M" "M \<le> 12"
  shows "days_from_civil (if M = 12 then Y + 1 else Y) (if M = 12 then 1 else M + 1) 1 =
           days_from_civil Y M 1 + daysInMonth Y M"
proof -
  from assms have "M = 1 \<or> M = 2 \<or> M = 3 \<or> M = 4 \<or> M = 5 \<or> M = 6 \<or> M = 7 \<or>
      M = 8 \<or> M = 9 \<or> M = 10 \<or> M = 11 \<or> M = 12"
    by presburger
  then consider "M = 1" | "M = 2" | "M = 3" | "M = 4" | "M = 5" | "M = 6" | "M = 7"
    | "M = 8" | "M = 9" | "M = 10" | "M = 11" | "M = 12"
    by blast
  then show ?thesis
  proof cases
    case 2
    then show ?thesis
      using yearDays_step [of Y]
      by (simp add: first_of_month_table daysInMonth_def)
  qed (simp_all add: first_of_month_table daysInMonth_def)
qed

lemma daysInMonth_bounds: "28 \<le> daysInMonth y m" "daysInMonth y m \<le> 31"
  by (simp_all add: daysInMonth_def)

lemma firstOfMonth_step:
  "firstOfMonth (k + 1) = firstOfMonth k + daysInMonth (k div 12) (k mod 12 + 1)"
proof -
  define Y where "Y = k div 12"
  define M where "M = k mod 12 + 1"
  have M: "1 \<le> M" "M \<le> 12" unfolding M_def by auto
  have k: "k = 12 * Y + (M - 1)" unfolding Y_def M_def by simp
  have d: "(k + 1) div 12 = (if M = 12 then Y + 1 else Y)"
  proof (cases "M = 12")
    case True
    have "(k + 1) div 12 = Y + 1"
      by (rule int_div_pos_eq [of _ _ _ 0]) (use k True in auto)
    with True show ?thesis by simp
  next
    case False
    have "(k + 1) div 12 = Y"
      by (rule int_div_pos_eq [of _ _ _ M]) (use k M False in auto)
    with False show ?thesis by simp
  qed
  have m: "(k + 1) mod 12 + 1 = (if M = 12 then 1 else M + 1)"
  proof (cases "M = 12")
    case True
    have "(k + 1) mod 12 = 0"
      by (rule int_mod_pos_eq [of _ _ "Y + 1"]) (use k True in auto)
    with True show ?thesis by simp
  next
    case False
    have "(k + 1) mod 12 = M"
      by (rule int_mod_pos_eq [of _ _ Y]) (use k M False in auto)
    with False show ?thesis by simp
  qed
  show ?thesis
    unfolding firstOfMonth_def d m Y_def [symmetric] M_def [symmetric]
    by (rule next_first [OF M])
qed

lemma firstOfMonth_mono_nat:
  "firstOfMonth k + 28 * int n \<le> firstOfMonth (k + int n)"
proof (induction n)
  case 0
  then show ?case by simp
next
  case (Suc n)
  have "k + int (Suc n) = k + int n + 1" by simp
  then have "firstOfMonth (k + int (Suc n)) = firstOfMonth (k + int n + 1)"
    by (rule arg_cong)
  also have "\<dots> = firstOfMonth (k + int n) +
      daysInMonth ((k + int n) div 12) ((k + int n) mod 12 + 1)"
    by (rule firstOfMonth_step)
  finally show ?case
    using Suc daysInMonth_bounds(1) [of "(k + int n) div 12" "(k + int n) mod 12 + 1"]
    by simp
qed

lemma firstOfMonth_mono:
  assumes "k \<le> k'"
  shows "firstOfMonth k \<le> firstOfMonth k'"
proof -
  from assms have eq: "k + int (nat (k' - k)) = k'" by simp
  have "0 \<le> 28 * int (nat (k' - k))" by simp
  with firstOfMonth_mono_nat [of k "nat (k' - k)"] show ?thesis
    unfolding eq by linarith
qed

subsection \<open>Billing cycles of a recurring booking\<close>

lemma extendsBy_refl: "extendsBy u rb A L s s"
  by (simp add: extendsBy_def)

lemma extendsBy_step:
  assumes "extendsBy u rb A L (insertCycle s u rb m y A L bd dd) s'"
  shows "extendsBy u rb A L s s'"
  using assms by (auto simp: extendsBy_def insertCycle_def)

lemma billingLoop_frame:
  assumes "billingLoop tz faults u rb A L e cur k s = Some r"
  shows "extendsBy u rb A L s (snd r)"
proof (rule billingLoop.raw_induct
    [where P = "\<lambda>tz faults u rb A L e cur k s r. extendsBy u rb A L s (snd r)", OF _ assms])
  fix loop tz faults u rb A L e cur k s r
  assume IH: "\<And>tz faults u rb A L e cur k s r.
                loop tz faults u rb A L e cur k s = Some r \<Longrightarrow> extendsBy u rb A L s (snd r)"
    and eq: "(if cur \<le> e
      then let cycleMonth = fst (snd (localDate tz cur));
               cycleYear = fst (localDate tz cur);
               billingDate = newDateLocal tz cycleYear (cycleMonth - 1) 1;
               dueDate = newDateLocal tz cycleYear (cycleMonth - 1) 15
           in if faults k then Some (False, s)
              else loop tz faults u rb A L e
                    (newDateLocal tz (fst (localDate tz cur))
                      (fst (snd (localDate tz cur)) - 1 + 1) 1)
                    (Suc k)
                    (insertCycle s u rb cycleMonth cycleYear A L
                      (utcDate billingDate) (utcDate dueDate))
      else Some (True, s)) = Some r"
  show "extendsBy u rb A L s (snd r)"
  proof (cases "cur \<le> e \<and> \<not> faults k")
    case True
    with eq have "loop tz faults u rb A L e
                    (newDateLocal tz (fst (localDate tz cur))
                      (fst (snd (localDate tz cur)) - 1 + 1) 1)
                    (Suc k)
                    (insertCycle s u rb (fst (snd (localDate tz cur))) (fst (localDate tz cur)) A L
                      (utcDate (newDateLocal tz (fst (localDate tz cur))
                                  (fst (snd (localDate tz cur)) - 1) 1))
                      (utcDate (newDateLocal tz (fst (localDate tz cur))
                                  (fst (snd (localDate tz cur)) - 1) 15))) = Some r"
      by (simp add: Let_def)
    from IH [OF this] show ?thesis by (rule extendsBy_step)
  next
    case False
    with eq have "snd r = s" by (auto simp: Let_def split: if_splits)
    then show ?thesis by (simp add: extendsBy_refl)
  qed
qed

lemma generateBillingCycles_frame:
  assumes "generateBillingCycles tz faults s rb u startDate endDate pr freq = Some r"
  shows "extendsBy u rb (pr * of_int (lessonsPerMonth freq)) (lessonsPerMonth freq) s (snd r)"
  using assms billingLoop_frame [of tz faults u rb "pr * of_int (lessonsPerMonth freq)"
      "lessonsPerMonth freq" _ _ 1 s r]
  by (auto simp: generateBillingCycles_def extendsBy_refl split: option.splits)

lemma lessonsPerMonth_values:
  "lessonsPerMonth ''weekly'' = 4" "lessonsPerMonth ''biweekly'' = 2"
  by (simp_all add: lessonsPerMonth_def)

text \<open>
  On a host whose local time is UTC the loop visits the first day of every month from the
  start month to the end month and then stops: it writes exactly the intended cycles, for
  every pair of calendar dates from the year 100 on (\<open>new Date(y, m, d)\<close> reads a year below
  100 as \<open>1900 + y\<close>).
\<close>

lemma days_from_civil_day: "days_from_civil y m d = days_from_civil y m 1 + (d - 1)"
  by (simp add: days_from_civil_def Let_def)

lemma monthIndex_div_mod:
  assumes "1 \<le> m" "m \<le> 12"
  shows "monthIndex y m div 12 = y" and "monthIndex y m mod 12 + 1 = m"
proof -
  show "monthIndex y m div 12 = y"
    unfolding monthIndex_def
    by (rule int_div_pos_eq [of _ _ _ "m - 1"]) (use assms in auto)
  have "monthIndex y m mod 12 = m - 1"
    unfolding monthIndex_def
    by (rule int_mod_pos_eq [of _ _ y]) (use assms in auto)
  then show "monthIndex y m mod 12 + 1 = m" by simp
qed

lemma month_of_index: "1 \<le> k mod 12 + 1" "k mod 12 + 1 \<le> 12" for k :: int
  by auto

lemma day_in_month:
  assumes "1 \<le> d" "d \<le> 28"
  shows "civil_from_days (firstOfMonth k + (d - 1)) = (k div 12, k mod 12 + 1, d)"
proof -
  have "d \<le> daysInMonth (k div 12) (k mod 12 + 1)"
    using assms(2) daysInMonth_bounds(1) [of "k div 12" "k mod 12 + 1"] by linarith
  from civil_roundtrip_valid [OF month_of_index assms(1) this]
  show ?thesis
    unfolding firstOfMonth_def days_from_civil_day [of _ _ d] .
qed

lemma utc_day: "(a * msPerDay + 0 * msPerMinute) div msPerDay = a" "(a * msPerDay) div msPerDay = a"
  by (simp_all add: msPerDay_def)

lemma localDate_first: "localDate 0 (firstOfMonth k * msPerDay) = (k div 12, k mod 12 + 1, 1)"
  unfolding localDate_def utc_day using day_in_month [of 1 k] by simp

lemma utcDate_day:
  assumes "1 \<le> d" "d \<le> 28"
  shows "utcDate ((firstOfMonth k + (d - 1)) * msPerDay) = (k div 12, k mod 12 + 1, d)"
  unfolding utcDate_def utc_day by (rule day_in_month [OF assms])

lemma newDateLocal_utc:
  assumes "1200 \<le> k"
  shows "newDateLocal 0 (k div 12) (k mod 12 + 1 - 1) d = (firstOfMonth k + (d - 1)) * msPerDay"
    and "newDateLocal 0 (k div 12) (k mod 12 + 1 - 1 + 1) 1 = firstOfMonth (k + 1) * msPerDay"
proof -
  from assms have "100 \<le> k div 12" by simp
  then have y: "\<not> (0 \<le> k div 12 \<and> k div 12 \<le> 99)" by simp
  have a: "k div 12 * 12 + (k mod 12 + 1 - 1) = k" by simp
  have b: "k div 12 * 12 + (k mod 12 + 1 - 1 + 1) = k + 1" by simp
  show "newDateLocal 0 (k div 12) (k mod 12 + 1 - 1) d = (firstOfMonth k + (d - 1)) * msPerDay"
    unfolding newDateLocal_def Let_def if_not_P [OF y] a firstOfMonth_def by simp
  show "newDateLocal 0 (k div 12) (k mod 12 + 1 - 1 + 1) 1 = firstOfMonth (k + 1) * msPerDay"
    unfolding newDateLocal_def Let_def if_not_P [OF y] b firstOfMonth_def by simp
qed

lemma billingLoop_utc:
  assumes k: "1200 \<le> k"
    and lo: "firstOfMonth ke * msPerDay \<le> end"
    and hi: "end < firstOfMonth (ke + 1) * msPerDay"
  shows "billingLoop 0 (\<lambda>_. False) u r amt lpm end (firstOfMonth k * msPerDay) i s =
     Some (True, s\<lparr>billing_cycles := billing_cycles s @ map (monthlyCycle u r amt lpm) [k..ke]\<rparr>)"
  using k
proof (induction "nat (ke + 1 - k)" arbitrary: k i s)
  case 0
  then have a: "ke + 1 \<le> k" by simp
  then have "firstOfMonth (ke + 1) \<le> firstOfMonth k" by (rule firstOfMonth_mono)
  then have "\<not> firstOfMonth k * msPerDay \<le> end" using hi by (simp add: msPerDay_def)
  moreover have "[k..ke] = []" using a by simp
  ultimately show ?case by (subst billingLoop.simps) simp
next
  case (Suc n)
  then have le: "k \<le> ke" by linarith
  have n: "n = nat (ke + 1 - (k + 1))" using Suc(2) by linarith
  have k1: "1200 \<le> k + 1" using Suc(3) by simp
  have "firstOfMonth k \<le> firstOfMonth ke" using le by (rule firstOfMonth_mono)
  then have cond: "firstOfMonth k * msPerDay \<le> end" using lo by (simp add: msPerDay_def)
  have up: "[k..ke] = k # [k + 1..ke]" using le by (simp add: upto_rec1)
  have bill: "utcDate ((firstOfMonth k + (1 - 1)) * msPerDay) = (k div 12, k mod 12 + 1, 1)"
    by (rule utcDate_day) simp_all
  have due: "utcDate ((firstOfMonth k + (15 - 1)) * msPerDay) = (k div 12, k mod 12 + 1, 15)"
    by (rule utcDate_day) simp_all
  show ?case
    apply (subst billingLoop.simps)
    apply (simp only: cond if_True if_False Let_def localDate_first fst_conv snd_conv
        newDateLocal_utc [OF Suc(3)] bill due Suc(1) [OF n k1] up)
    apply (simp add: insertCycle_def monthlyCycle_def)
    done
qed

lemma utc_host_bills_every_month:
  assumes start: "parseIsoDate startDate = Some (days_from_civil ys ms ds * msPerDay)"
    and "end": "parseIsoDate endDate = Some (days_from_civil ye me de * msPerDay)"
    and vs: "validDate (ys, ms, ds)" and ve: "validDate (ye, me, de)"
    and y: "100 \<le> ys"
  shows "generateBillingCycles 0 (\<lambda>_. False) s recurringBookingId userId startDate endDate
           lessonPrice freq =
         Some (True, s\<lparr>billing_cycles := billing_cycles s @
           map (monthlyCycle userId recurringBookingId
                  (lessonPrice * of_int (lessonsPerMonth freq)) (lessonsPerMonth freq))
               [monthIndex ys ms..monthIndex ye me]\<rparr>)"
proof -
  from vs have ms: "1 \<le> ms" "ms \<le> 12" and ds: "1 \<le> ds" "ds \<le> daysInMonth ys ms"
    by (simp_all add: validDate_def)
  from ve have me: "1 \<le> me" "me \<le> 12" and de: "1 \<le> de" "de \<le> daysInMonth ye me"
    by (simp_all add: validDate_def)
  have ld: "localDate 0 (days_from_civil ys ms ds * msPerDay) = (ys, ms, ds)"
    unfolding localDate_def utc_day by (rule civil_roundtrip_valid [OF ms ds])
  have ks: "1200 \<le> monthIndex ys ms" using y ms unfolding monthIndex_def by simp
  have first: "newDateLocal 0 ys (ms - 1) 1 = firstOfMonth (monthIndex ys ms) * msPerDay"
    using newDateLocal_utc(1) [OF ks, of 1] unfolding monthIndex_div_mod [OF ms] by simp
  have e: "days_from_civil ye me de = firstOfMonth (monthIndex ye me) + (de - 1)"
    unfolding firstOfMonth_def monthIndex_div_mod [OF me] by (rule days_from_civil_day)
  have lo: "firstOfMonth (monthIndex ye me) * msPerDay \<le> days_from_civil ye me de * msPerDay"
    unfolding e using de(1) by (simp add: msPerDay_def)
  have "firstOfMonth (monthIndex ye me + 1) = firstOfMonth (monthIndex ye me) + daysInMonth ye me"
    using firstOfMonth_step [of "monthIndex ye me"] unfolding monthIndex_div_mod [OF me] .
  then have hi: "days_from_civil ye me de * msPerDay < firstOfMonth (monthIndex ye me + 1) * msPerDay"
    unfolding e using de(2) by (simp add: msPerDay_def)
  show ?thesis
    unfolding generateBillingCycles_def start "end"
    by (simp only: prod.case option.case ld fst_conv snd_conv first
        billingLoop_utc [OF ks lo hi])
qed

lemma utc_host_cycle_count:
  "length (map (monthlyCycle u r amt lpm) [monthIndex ys ms..monthIndex ye me]) =
     nat (monthIndex ye me - monthIndex ys ms + 1)"
  by simp

lemma utc_host_bills_the_academic_year:
  "generateBillingCycles 0 (\<lambda>_. False) studio 1 7 ''2025-09-01'' ''2026-06-30'' 95 ''weekly'' =
     Some (True, studio\<lparr>billing_cycles := billing_cycles studio @
       map (monthlyCycle 7 1 380 4) [monthIndex 2025 9..monthIndex 2026 6]\<rparr>)
   \<and> nat (monthIndex 2026 6 - monthIndex 2025 9 + 1) = 10"
proof -
  have a: "parseIsoDate ''2025-09-01'' = Some (days_from_civil 2025 9 1 * msPerDay)"
    by code_simp
  have b: "parseIsoDate ''2026-06-30'' = Some (days_from_civil 2026 6 30 * msPerDay)"
    by code_simp
  have c: "validDate (2025, 9, 1)" "validDate (2026, 6, 30)"
    by code_simp+
  have d: "nat (monthIndex 2026 6 - monthIndex 2025 9 + 1) = 10"
    by (simp add: monthIndex_def)
  from utc_host_bills_every_month [OF a b c, of studio 1 7 95 "''weekly''"] d
  show ?thesis by (simp add: lessonsPerMonth_def)
qed

lemma utc_host_bills_ten_months:
  "map_option (\<lambda>(r, s). (code r, map cycleSummary (billing_cycles s)))
     (createRecurringBooking 0 noFaults studio weeklyRequest) =
   Some (200,
     [(2025, 9, 4, 380, (2025, 9, 1), (2025, 9, 15)),
      (2025, 10, 4, 380, (2025, 10, 1), (2025, 10, 15)),
      (2025, 11, 4, 380, (2025, 11, 1), (2025, 11, 15)),
      (2025, 12, 4, 380, (2025, 12, 1), (2025, 12, 15)),
      (2026, 1, 4, 380, (2026, 1, 1), (2026, 1, 15)),
      (2026, 2, 4, 380, (2026, 2, 1), (2026, 2, 15)),
      (2026, 3, 4, 380, (2026, 3, 1), (2026, 3, 15)),
      (2026, 4, 4, 380, (2026, 4, 1), (2026, 4, 15)),
      (2026, 5, 4, 380, (2026, 5, 1), (2026, 5, 15)),
      (2026, 6, 4, 380, (2026, 6, 1), (2026, 6, 15))])"
  by code_simp

lemma east_host_bills_the_day_before:
  "map_option (\<lambda>(r, s). (code r, map cycleSummary (take 2 (billing_cycles s))))
     (createRecurringBooking 60 noFaults studio weeklyRequest) =
   Some (200,
     [(2025, 9, 4, 380, (2025, 8, 31), (2025, 9, 14)),
      (2025, 10, 4, 380, (2025, 9, 30), (2025, 10, 14))])"
  by code_simp

text \<open>
  C4. A weekly commitment spanning N calendar months should get exactly N billing cycles,
  dated the 1st and due the 15th of their month. The start date \<open>'2025-09-01'\<close> is read
  as midnight UTC, but its month and year are taken in the host's zone: on a host in the
  studio's zone (Pacific time) that instant is still 31 August, so the commitment from
  1 September 2025 to 30 June 2026, which spans ten months, is billed eleven times, the
  first time for August 2025. The amounts are as claimed on every host (4 lessons and
  4 times the price for weekly, 2 for any other frequency: \<open>generateBillingCycles_frame\<close>),
  and on a host on UTC every commitment between two calendar dates gets exactly one cycle
  for each of its months (\<open>utc_host_bills_every_month\<close>), here the ten claimed ones
  (\<open>utc_host_bills_ten_months\<close>).
\<close>

theorem pacific_host_bills_august:
  "map_option (localDate pacific) (parseIsoDate (rr_start_date weeklyRequest)) =
     Some (2025, 8, 31) \<and>
   map_option (\<lambda>(r, s). (code r, map cycleSummary (billing_cycles s)))
     (createRecurringBooking pacific noFaults studio weeklyRequest) =
   Some (200,
     [(2025, 8, 4, 380, (2025, 8, 1), (2025, 8, 15)),
      (2025, 9, 4, 380, (2025, 9, 1), (2025, 9, 15)),
      (2025, 10, 4, 380, (2025, 10, 1), (2025, 10, 15)),
      (2025, 11, 4, 380, (2025, 11, 1), (2025, 11, 15)),
      (2025, 12, 4, 380, (2025, 12, 1), (2025, 12, 15)),
      (2026, 1, 4, 380, (2026, 1, 1), (2026, 1, 15)),
      (2026, 2, 4, 380, (2026, 2, 1), (2026, 2, 15)),
      (2026, 3, 4, 380, (2026, 3, 1), (2026, 3, 15)),
      (2026, 4, 4, 380, (2026, 4, 1), (2026, 4, 15)),
      (2026, 5, 4, 380, (2026, 5, 1), (2026, 5, 15)),
      (2026, 6, 4, 380, (2026, 6, 1), (2026, 6, 15))])"
  by code_simp













subsection \<open>Available slots\<close>

lemma candidateSlots_iff:
  "x \<in> set (candidateSlots cur dayEnd dur) \<longleftrightarrow>
     (\<exists>n::nat. slot_start x = cur + int n * (30 * msPerMinute)) \<and>
     slot_start x < dayEnd \<and> slot_end x = addMinutes (slot_start x) dur \<and>
     slot_end x \<le> dayEnd \<and> available x"
proof (induction cur dayEnd dur rule: candidateSlots.induct)
  case (1 cur dayEnd dur)
  show ?case
  proof (cases "cur < dayEnd")
    case False
    have "\<not> (\<exists>n::nat. slot_start x = cur + int n * (30 * msPerMinute) \<and> slot_start x < dayEnd)"
    proof
      assume "\<exists>n::nat. slot_start x = cur + int n * (30 * msPerMinute) \<and> slot_start x < dayEnd"
      then obtain n :: nat where "cur + int n * (30 * msPerMinute) < dayEnd" by auto
      moreover have "0 \<le> int n * (30 * msPerMinute)" by (simp add: msPerMinute_def)
      ultimately show False using False by linarith
    qed
    with False show ?thesis
      by (subst candidateSlots.simps) auto
  next
    case True
    note IH = "1.IH" [OF True refl]
    have head: "x \<in> set (if addMinutes cur dur \<le> dayEnd
                   then [\<lparr>slot_start = cur, slot_end = addMinutes cur dur, available = True\<rparr>]
                   else []) \<longleftrightarrow>
          slot_start x = cur \<and> slot_end x = addMinutes (slot_start x) dur \<and>
          slot_end x \<le> dayEnd \<and> available x"
      by (cases x) auto
    have split: "(\<exists>n::nat. slot_start x = cur + int n * (30 * msPerMinute)) \<longleftrightarrow>
          slot_start x = cur \<or>
          (\<exists>n::nat. slot_start x = addMinutes cur 30 + int n * (30 * msPerMinute))"
    proof
      assume "\<exists>n::nat. slot_start x = cur + int n * (30 * msPerMinute)"
      then obtain n :: nat where n: "slot_start x = cur + int n * (30 * msPerMinute)" by auto
      show "slot_start x = cur \<or>
          (\<exists>n::nat. slot_start x = addMinutes cur 30 + int n * (30 * msPerMinute))"
      proof (cases n)
        case 0
        with n show ?thesis by simp
      next
        case (Suc m)
        with n have "slot_start x = addMinutes cur 30 + int m * (30 * msPerMinute)"
          by (simp add: addMinutes_def algebra_simps)
        then show ?thesis by blast
      qed
    next
      assume "slot_start x = cur \<or>
          (\<exists>n::nat. slot_start x = addMinutes cur 30 + int n * (30 * msPerMinute))"
      then show "\<exists>n::nat. slot_start x = cur + int n * (30 * msPerMinute)"
      proof
        assume "slot_start x = cur"
        then have "slot_start x = cur + int 0 * (30 * msPerMinute)" by simp
        then show ?thesis by blast
      next
        assume "\<exists>n::nat. slot_start x = addMinutes cur 30 + int n * (30 * msPerMinute)"
        then obtain m :: nat where
          "slot_start x = addMinutes cur 30 + int m * (30 * msPerMinute)" by auto
        then have "slot_start x = cur + int (Suc m) * (30 * msPerMinute)"
          by (simp add: addMinutes_def algebra_simps)
        then show ?thesis by blast
      qed
    qed
    have "x \<in> set (candidateSlots cur dayEnd dur) \<longleftrightarrow>
          x \<in> set (if addMinutes cur dur \<le> dayEnd
                   then [\<lparr>slot_start = cur, slot_end = addMinutes cur dur, available = True\<rparr>]
                   else []) \<or>
          x \<in> set (candidateSlots (addMinutes cur 30) dayEnd dur)"
      using True by (subst candidateSlots.simps) (simp add: Let_def)
    also have "\<dots> \<longleftrightarrow>
          (slot_start x = cur \<or>
           (\<exists>n::nat. slot_start x = addMinutes cur 30 + int n * (30 * msPerMinute))) \<and>
          slot_start x < dayEnd \<and> slot_end x = addMinutes (slot_start x) dur \<and>
          slot_end x \<le> dayEnd \<and> available x"
      using True by (auto simp: head IH)
    finally show ?thesis by (simp add: split)
  qed
qed

lemma marked_available_iff:
  "available (markBooked existing (markBusy busyTimes c)) \<longleftrightarrow>
     available c \<and>
     \<not> list_ex (\<lambda>busy. overlaps (slot_start c) (slot_end c) (fst busy) (snd busy)) busyTimes \<and>
     \<not> list_ex (\<lambda>b. overlaps (slot_start c) (slot_end c) (lesson_date b)
                       (addMinutes (lesson_date b) (duration b))) existing"
  by (auto simp: markBooked_def markBusy_def)

lemma marked_available_same:
  "available (markBooked existing (markBusy busyTimes c)) \<Longrightarrow>
   markBooked existing (markBusy busyTimes c) = c"
  by (auto simp: markBooked_def markBusy_def split: if_splits)

lemma filter_marked_iff:
  "x \<in> set (filter available (map (markBooked existing) (map (markBusy busyTimes) cs))) \<longleftrightarrow>
     x \<in> set cs \<and> available x \<and>
     \<not> list_ex (\<lambda>busy. overlaps (slot_start x) (slot_end x) (fst busy) (snd busy)) busyTimes \<and>
     \<not> list_ex (\<lambda>b. overlaps (slot_start x) (slot_end x) (lesson_date b)
                       (addMinutes (lesson_date b) (duration b))) existing"
proof
  assume "x \<in> set (filter available (map (markBooked existing) (map (markBusy busyTimes) cs)))"
  then obtain c where c: "c \<in> set cs" "x = markBooked existing (markBusy busyTimes c)"
    and av: "available x" by auto
  from av c(2) have "x = c" using marked_available_same [of existing busyTimes c] by simp
  with c av marked_available_iff [of existing busyTimes c]
  show "x \<in> set cs \<and> available x \<and>
     \<not> list_ex (\<lambda>busy. overlaps (slot_start x) (slot_end x) (fst busy) (snd busy)) busyTimes \<and>
     \<not> list_ex (\<lambda>b. overlaps (slot_start x) (slot_end x) (lesson_date b)
                       (addMinutes (lesson_date b) (duration b))) existing"
    by simp
next
  assume r: "x \<in> set cs \<and> available x \<and>
     \<not> list_ex (\<lambda>busy. overlaps (slot_start x) (slot_end x) (fst busy) (snd busy)) busyTimes \<and>
     \<not> list_ex (\<lambda>b. overlaps (slot_start x) (slot_end x) (lesson_date b)
                       (addMinutes (lesson_date b) (duration b))) existing"
  then have av: "available (markBooked existing (markBusy busyTimes x))"
    by (simp add: marked_available_iff)
  from marked_available_same [OF av] av r
  show "x \<in> set (filter available (map (markBooked existing) (map (markBusy busyTimes) cs)))"
    by (auto simp: image_iff intro!: bexI [of _ x])
qed

lemma blackout_frame:
  "settingOr (s\<lparr>blackout_dates := bl\<rparr>) k dflt = settingOr s k dflt"
  "existingBookings (s\<lparr>blackout_dates := bl\<rparr>) date = existingBookings s date"
  by (simp_all add: settingOr_def existingBookings_def)

theorem blackout_day_has_open_slots:
  "list_ex (\<lambda>bl. is_active bl \<and> ymd_le (start_date bl) (2025, 11, 25) \<and>
                 ymd_le (2025, 11, 25) (end_date bl)) (blackout_dates studio) \<and>
   getAvailableSlots pacific studio [] ''2025-11-25'' 60 =
     candidateSlots 1764090000000 1764122400000 60 \<and>
   length (getAvailableSlots pacific studio [] ''2025-11-25'' 60) = 17 \<and>
   list_all available (getAvailableSlots pacific studio [] ''2025-11-25'' 60)"
  by code_simp

text \<open>
  C6. A candidate that overlaps a pending or confirmed booking must not be offered. The
  resolver selects the day's bookings with \<open>DATE(lesson_date) = ?\<close>, the UTC day of the
  stored instant, against the requested date, which it reads in the host's zone. On a host
  in the studio's zone a pending lesson at 17:00 on 10 November is stored under
  11 November and is not among the bookings checked: the two candidates that overlap it,
  at 16:30 and at 17:00, are returned as available, while the candidates around the 14:00
  lesson of the same day (13:30, 14:00, 14:30) and those inside the hour the external
  calendar reports as busy (9:00, 9:30) are left out.
\<close>

theorem evening_lesson_is_offered_again:
  "eveningLesson \<in> set (bookings studioEvening) \<and>
   status eveningLesson = Pending \<and>
   lesson_date eveningLesson = 1762822800000 \<and>
   localDate pacific (lesson_date eveningLesson) = (2025, 11, 10) \<and>
   utcDate (lesson_date eveningLesson) = (2025, 11, 11) \<and>
   existingBookings studioEvening ''2025-11-10'' = [lesson1] \<and>
   map slot_start (getAvailableSlots pacific studioEvening busyMorning ''2025-11-10'' 60) =
     [1762797600000, 1762799400000, 1762801200000, 1762803000000, 1762804800000,
      1762806600000, 1762808400000, 1762815600000, 1762817400000, 1762819200000,
      1762821000000, 1762822800000] \<and>
   filter (\<lambda>x. overlaps (slot_start x) (slot_end x) (lesson_date eveningLesson)
                  (addMinutes (lesson_date eveningLesson) (duration eveningLesson)))
     (getAvailableSlots pacific studioEvening busyMorning ''2025-11-10'' 60) =
     [\<lparr>slot_start = 1762821000000, slot_end = 1762824600000, available = True\<rparr>,
      \<lparr>slot_start = 1762822800000, slot_end = 1762826400000, available = True\<rparr>]"
  by code_simp

text \<open>
  What the resolver returns, for every store: it generates candidate start times every 30
  minutes from the start of business hours, leaves out every candidate whose end
  \<open>start + duration\<close> would pass the end of business hours, and returns the remaining
  candidates except those that strictly overlap
  (\<open>slotStart < otherEnd && slotEnd > otherStart\<close>) an externally reported busy interval
  or one of the bookings \<open>existingBookings\<close> selects: an occupied candidate is left out
  of the result, not returned with an unavailable mark. Blackout ranges are not consulted:
  the result is the same whatever the \<open>blackout_dates\<close> table holds.
\<close>

theorem available_slots_characterised:
  assumes "parseLocalDateTime tz date (settingOr s ''business_hours_start'' ''09:00'') =
             Some dayStart"
    and "parseLocalDateTime tz date (settingOr s ''business_hours_end'' ''18:00'') = Some dayEnd"
  shows "(x \<in> set (getAvailableSlots tz s busyTimes date dur) \<longleftrightarrow>
            (\<exists>n::nat. slot_start x = dayStart + int n * (30 * msPerMinute)) \<and>
            slot_start x < dayEnd \<and> slot_end x = addMinutes (slot_start x) dur \<and>
            slot_end x \<le> dayEnd \<and> available x \<and>
            \<not> (\<exists>busy \<in> set busyTimes.
                  overlaps (slot_start x) (slot_end x) (fst busy) (snd busy)) \<and>
            \<not> (\<exists>b \<in> set (existingBookings s date).
                  overlaps (slot_start x) (slot_end x) (lesson_date b)
                    (addMinutes (lesson_date b) (duration b)))) \<and>
         getAvailableSlots tz (s\<lparr>blackout_dates := bl\<rparr>) busyTimes date dur =
           getAvailableSlots tz s busyTimes date dur"
proof
  have "getAvailableSlots tz s busyTimes date dur =
          filter available
            (map (markBooked (existingBookings s date))
               (map (markBusy busyTimes) (candidateSlots dayStart dayEnd dur)))"
    using assms by (simp add: getAvailableSlots_def)
  then show "x \<in> set (getAvailableSlots tz s busyTimes date dur) \<longleftrightarrow>
            (\<exists>n::nat. slot_start x = dayStart + int n * (30 * msPerMinute)) \<and>
            slot_start x < dayEnd \<and> slot_end x = addMinutes (slot_start x) dur \<and>
            slot_end x \<le> dayEnd \<and> available x \<and>
            \<not> (\<exists>busy \<in> set busyTimes.
                  overlaps (slot_start x) (slot_end x) (fst busy) (snd busy)) \<and>
            \<not> (\<exists>b \<in> set (existingBookings s date).
                  overlaps (slot_start x) (slot_end x) (lesson_date b)
                    (addMinutes (lesson_date b) (duration b)))"
    by (simp only: filter_marked_iff candidateSlots_iff list_ex_iff) blast
  show "getAvailableSlots tz (s\<lparr>blackout_dates := bl\<rparr>) busyTimes date dur =
           getAvailableSlots tz s busyTimes date dur"
    using assms by (simp add: getAvailableSlots_def blackout_frame)
qed

lemma studio_day_bounds:
  "parseLocalDateTime pacific ''2025-11-10'' (settingOr studio ''business_hours_start'' ''09:00'') =
     Some 1762794000000"
  "parseLocalDateTime pacific ''2025-11-10'' (settingOr studio ''business_hours_end'' ''18:00'') =
     Some 1762826400000"
  "existingBookings studio ''2025-11-10'' = [lesson1]"
  by code_simp+

theorem available_slots_characterised_witness:
  "\<lparr>slot_start = 1762794000000, slot_end = 1762797600000, available = True\<rparr>
     \<in> set (getAvailableSlots pacific studio [] ''2025-11-10'' 60) \<and>
   \<lparr>slot_start = 1762812000000, slot_end = 1762815600000, available = True\<rparr>
     \<notin> set (getAvailableSlots pacific studio [] ''2025-11-10'' 60) \<and>
   \<lparr>slot_start = 1762824600000, slot_end = 1762828200000, available = True\<rparr>
     \<notin> set (getAvailableSlots pacific studio [] ''2025-11-10'' 60)"
proof -
  note ch = available_slots_characterised [OF studio_day_bounds(1,2), of _ "[]" 60]
  have first: "\<exists>n::nat. (1762794000000::int) = 1762794000000 + int n * (30 * msPerMinute)"
    by (rule exI [of _ 0]) simp
  have a: "\<lparr>slot_start = 1762794000000, slot_end = 1762797600000, available = True\<rparr>
             \<in> set (getAvailableSlots pacific studio [] ''2025-11-10'' 60)"
    using ch [of "\<lparr>slot_start = 1762794000000, slot_end = 1762797600000, available = True\<rparr>"]
      first
    by (simp add: studio_day_bounds(3) overlaps_def addMinutes_def msPerMinute_def lesson1_def)
  have b: "\<lparr>slot_start = 1762812000000, slot_end = 1762815600000, available = True\<rparr>
             \<notin> set (getAvailableSlots pacific studio [] ''2025-11-10'' 60)"
    using ch [of "\<lparr>slot_start = 1762812000000, slot_end = 1762815600000, available = True\<rparr>"]
    by (simp add: studio_day_bounds(3) overlaps_def addMinutes_def msPerMinute_def lesson1_def)
  have c: "\<lparr>slot_start = 1762824600000, slot_end = 1762828200000, available = True\<rparr>
             \<notin> set (getAvailableSlots pacific studio [] ''2025-11-10'' 60)"
    using ch [of "\<lparr>slot_start = 1762824600000, slot_end = 1762828200000, available = True\<rparr>"]
    by simp
  from a b c show ?thesis by simp
qed


end
